theory Spec2Isabelle
  imports Main "HOL-Library.AList"
begin

section \<open>JavaScript values\<close>

text \<open>
  The handler of \<^verbatim>\<open>handleHistory.js\<close> is untyped JavaScript: navigation descriptors,
  route objects and history states are plain objects whose fields may be missing, and
  the code defaults them with \<^verbatim>\<open>||\<close> and guards them with \<^verbatim>\<open>&&\<close>. The values are
  modelled by one datatype. Numbers are the integers together with \<open>NaN\<close> (the code
  does no arithmetic: it only tests numbers for truthiness and compares them with
  \<^verbatim>\<open>===\<close>); an object is the association list of its own fields.
\<close>

datatype jsval =
    JUndefined
  | JNull
  | JBool bool
  | JNum int
  | JNaN
  | JStr string
  | JObj "(string \<times> jsval) list"

type_synonym obj = "(string \<times> jsval) list"

text \<open>ToBoolean: what \<^verbatim>\<open>if (v)\<close>, \<^verbatim>\<open>v || w\<close>, \<^verbatim>\<open>v && w\<close> and \<^verbatim>\<open>!!v\<close> test.\<close>

fun truthy :: "jsval \<Rightarrow> bool" where
  "truthy JUndefined = False"
| "truthy JNull = False"
| "truthy (JBool b) = b"
| "truthy (JNum n) = (n \<noteq> 0)"
| "truthy JNaN = False"
| "truthy (JStr s) = (s \<noteq> [])"
| "truthy (JObj fs) = True"

definition js_or :: "jsval \<Rightarrow> jsval \<Rightarrow> jsval" where
  "js_or a b = (if truthy a then a else b)"

definition js_and :: "jsval \<Rightarrow> jsval \<Rightarrow> jsval" where
  "js_and a b = (if truthy a then b else a)"

text \<open>
  Property read \<^verbatim>\<open>v.k\<close>. A missing field reads as \<^verbatim>\<open>undefined\<close>, and so does a field
  of a primitive. A read on \<^verbatim>\<open>undefined\<close> or \<^verbatim>\<open>null\<close> throws in JavaScript; every read
  of the source is guarded against that (\<^verbatim>\<open>props.currentRoute || {}\<close>,
  \<^verbatim>\<open>e.state && e.state.params\<close>, ...), so the model gives \<^verbatim>\<open>undefined\<close> there as well.
\<close>

fun get :: "jsval \<Rightarrow> string \<Rightarrow> jsval" where
  "get (JObj fs) k = (case map_of fs k of None \<Rightarrow> JUndefined | Some v \<Rightarrow> v)"
| "get v k = JUndefined"

text \<open>
  Strict equality \<^verbatim>\<open>a === b\<close>. Objects are compared by identity and \<open>NaN\<close> equals
  nothing. The source compares only against strings (the native url, the type constants)
  and against the window's scroll offsets, none of which is an object, so an object
  operand never compares equal.
\<close>

definition strict_eq :: "jsval \<Rightarrow> jsval \<Rightarrow> bool" where
  "strict_eq a b = (case a of JObj fs \<Rightarrow> False | JNaN \<Rightarrow> False | _ \<Rightarrow> a = b)"

text \<open>Field assignment \<^verbatim>\<open>o.k = v\<close> on an object: overwrite in place, or add the field.\<close>

definition set_field :: "string \<Rightarrow> jsval \<Rightarrow> obj \<Rightarrow> obj" where
  "set_field k v fs = AList.update k v fs"

section \<open>The native history handle\<close>

text \<open>
  \<^verbatim>\<open>this._history\<close> is made by \<^verbatim>\<open>options.historyCreator\<close>, by default
  \<^verbatim>\<open>new History()\<close>; \<^verbatim>\<open>History.js\<close> is imported by \<^verbatim>\<open>handleHistory.js\<close> and is not
  embedded here. The handler uses the handle only through \<^verbatim>\<open>getUrl\<close>, \<^verbatim>\<open>getState\<close>,
  \<^verbatim>\<open>pushState\<close>, \<^verbatim>\<open>replaceState\<close>, \<^verbatim>\<open>on\<close> and \<^verbatim>\<open>off\<close>, and these are modelled from the
  interface the specification gives for it.

  Modelled from the spec: the state of a \<^verbatim>\<open>History\<close> handle, the stack of history
  entries (``the host platform's back/forward navigation stack and associated per-entry
  opaque state storage''): the current entry and the entries below it. An entry's state
  is null (\<open>None\<close>) or an object.
\<close>

record hentry =
  h_state :: "obj option"
  h_title :: jsval
  h_url :: string

record history =
  current :: hentry
  below :: "hentry list"

text \<open>
  Modelled from the spec: \<^verbatim>\<open>History.getUrl\<close>, the url of the current entry
  (``\<^verbatim>\<open>getUrl() -> string\<close>'').
\<close>

definition getUrl :: "history \<Rightarrow> string" where
  "getUrl h = h_url (current h)"

text \<open>
  Modelled from the spec: \<^verbatim>\<open>History.getState\<close>, the state object of the current entry
  or null (``\<^verbatim>\<open>getState() -> HistoryEntryState | null\<close>''); \<open>None\<close> is null.
\<close>

definition getState :: "history \<Rightarrow> obj option" where
  "getState h = h_state (current h)"

text \<open>
  Modelled from the spec: the optional arguments of \<^verbatim>\<open>History.replaceState\<close> and
  \<^verbatim>\<open>History.pushState\<close>. An omitted or non-string url, and an omitted title, leave the
  current entry's value (``title/url optional, defaulting to current'').
\<close>

definition arg_url :: "jsval \<Rightarrow> history \<Rightarrow> string" where
  "arg_url url h = (case url of JStr u \<Rightarrow> u | _ \<Rightarrow> h_url (current h))"

definition arg_title :: "jsval \<Rightarrow> history \<Rightarrow> jsval" where
  "arg_title title h = (case title of JUndefined \<Rightarrow> h_title (current h) | _ \<Rightarrow> title)"

text \<open>
  Modelled from the spec: \<^verbatim>\<open>History.pushState\<close>
  (``\<^verbatim>\<open>pushState(state, title, url)\<close> -- append new entry''; ``push appends a new stack
  entry''). The new entry becomes the current one.
\<close>

definition h_pushState :: "obj \<Rightarrow> jsval \<Rightarrow> jsval \<Rightarrow> history \<Rightarrow> history" where
  "h_pushState st title url h =
     \<lparr>current = \<lparr>h_state = Some st, h_title = arg_title title h, h_url = arg_url url h\<rparr>,
      below = current h # below h\<rparr>"

text \<open>
  Modelled from the spec: \<^verbatim>\<open>History.replaceState\<close>
  (``\<^verbatim>\<open>replaceState(state, title?, url?)\<close> -- overwrite current entry (title/url
  optional, defaulting to current)''; ``replace overwrites the current entry's URL/state
  without changing stack depth'').
\<close>

definition h_replaceState :: "obj \<Rightarrow> jsval \<Rightarrow> jsval \<Rightarrow> history \<Rightarrow> history" where
  "h_replaceState st title url h =
     h\<lparr>current := \<lparr>h_state = Some st, h_title = arg_title title h, h_url = arg_url url h\<rparr>\<rparr>"

text \<open>Modelled from the spec: the ``stack depth'' of a \<^verbatim>\<open>History\<close> handle.\<close>

definition depth :: "history \<Rightarrow> nat" where
  "depth h = Suc (length (below h))"

section \<open>The component and its host\<close>

text \<open>
  The calls the component makes on its collaborators, in the order it makes them: the
  history handle, the action dispatcher (\<^verbatim>\<open>this.context.executeAction(navigateAction, payload)\<close>),
  the window and the console.
\<close>

datatype effect =
    PushState obj jsval jsval
  | ReplaceState obj jsval jsval
  | HistoryOn
  | HistoryOff
  | ExecuteAction obj
  | ScrollTo jsval jsval
  | CallOnBeforeUnload
  | ConsoleWarn jsval
  | Confirm jsval
  | SetTimeout nat nat
  | ClearTimeout nat
  | TimerFired nat
  | AddScrollListener
  | RemoveScrollListener
  | RemovePreloadListener

text \<open>
  A function in the \<^verbatim>\<open>window.onbeforeunload\<close> slot is given by what a call of it does:
  it returns a value or it throws one.
\<close>

datatype hook = Returns jsval | Throws jsval

text \<open>The event a history listener receives; the handler reads only \<^verbatim>\<open>e.state\<close>.\<close>

record event =
  state :: jsval

text \<open>
  The options after \<^verbatim>\<open>Object.assign({}, defaultOptions, opts)\<close>. Three of them are only
  ever tested by \<^verbatim>\<open>if\<close>, so the model keeps their truth value.
  \<^verbatim>\<open>ignorePopstateOnPageLoad\<close> is a value or a function, given by the value it returns.
\<close>

datatype ignore_option = IgnoreValue jsval | IgnoreFunction jsval

record options =
  checkRouteOnPageLoad :: bool
  enableScroll :: bool
  saveScrollInState :: bool
  ignorePopstateOnPageLoad :: ignore_option

definition defaultOptions :: options where
  "defaultOptions =
     \<lparr>checkRouteOnPageLoad = False, enableScroll = True, saveScrollInState = True,
      ignorePopstateOnPageLoad = IgnoreValue (JBool False)\<rparr>"

text \<open>
  Everything a handler reads or writes: the props and fields of the component instance,
  the window it runs in (scroll offsets as the browser reports them, \<open>None\<close> where the
  property does not exist; the before-unload slot, \<open>None\<close> when it holds no function;
  the user's answer to a \<^verbatim>\<open>confirm\<close> prompt; the pending timers as (handle, due time)
  and the clock), the two module variables, and the calls made so far.
\<close>

record world =
  currentRoute :: jsval
  currentNavigate :: jsval
  ignorePageLoadPopstate :: jsval
  scrollTimer :: "nat option"
  hist :: history
  scrollX :: "int option"
  pageXOffset :: "int option"
  scrollY :: "int option"
  pageYOffset :: "int option"
  onbeforeunload :: "hook option"
  confirm :: "jsval \<Rightarrow> bool"
  timers :: "(nat \<times> nat) list"
  timer_count :: nat
  clock :: nat
  HAS_PUSH_STATE :: bool
  lastPendingPopstateEvent :: "event option"
  trace :: "effect list"

definition TYPE_CLICK :: string where "TYPE_CLICK = ''click''"
definition TYPE_PAGELOAD :: string where "TYPE_PAGELOAD = ''pageload''"
definition TYPE_REPLACESTATE :: string where "TYPE_REPLACESTATE = ''replacestate''"
definition TYPE_POPSTATE :: string where "TYPE_POPSTATE = ''popstate''"
definition TYPE_DEFAULT :: string where "TYPE_DEFAULT = ''default''"

definition log :: "effect \<Rightarrow> world \<Rightarrow> world" where
  "log x w = w\<lparr>trace := trace w @ [x]\<rparr>"

definition pushState :: "obj \<Rightarrow> jsval \<Rightarrow> jsval \<Rightarrow> world \<Rightarrow> world" where
  "pushState st title url w =
     log (PushState st title url) (w\<lparr>hist := h_pushState st title url (hist w)\<rparr>)"

definition replaceState :: "obj \<Rightarrow> jsval \<Rightarrow> jsval \<Rightarrow> world \<Rightarrow> world" where
  "replaceState st title url w =
     log (ReplaceState st title url) (w\<lparr>hist := h_replaceState st title url (hist w)\<rparr>)"

definition executeAction :: "obj \<Rightarrow> world \<Rightarrow> world" where
  "executeAction payload w = log (ExecuteAction payload) w"

definition scrollTo :: "jsval \<Rightarrow> jsval \<Rightarrow> world \<Rightarrow> world" where
  "scrollTo x y w = log (ScrollTo x y) w"

definition num :: "int option \<Rightarrow> jsval" where
  "num v = (case v of None \<Rightarrow> JUndefined | Some n \<Rightarrow> JNum n)"

text \<open>
  \<^verbatim>\<open>{ x: window.scrollX || window.pageXOffset, y: window.scrollY || window.pageYOffset }\<close>
\<close>

definition windowScrollX :: "world \<Rightarrow> jsval" where
  "windowScrollX w = js_or (num (scrollX w)) (num (pageXOffset w))"

definition windowScrollY :: "world \<Rightarrow> jsval" where
  "windowScrollY w = js_or (num (scrollY w)) (num (pageYOffset w))"

definition windowScroll :: "world \<Rightarrow> jsval" where
  "windowScroll w = JObj [(''x'', windowScrollX w), (''y'', windowScrollY w)]"

text \<open>
  What both handlers first read from the navigation descriptor:
  \<^verbatim>\<open>var nav = this.props.currentNavigate || {}\<close>,
  \<^verbatim>\<open>var navType = nav.type || TYPE_DEFAULT\<close>,
  \<^verbatim>\<open>var navParams = nav.params || {}\<close>, \<^verbatim>\<open>var navQuery = nav.query || {}\<close> and
  \<^verbatim>\<open>var pageTitle = navParams.pageTitle || null\<close>.
\<close>

definition nav :: "world \<Rightarrow> jsval" where
  "nav w = js_or (currentNavigate w) (JObj [])"

definition navType :: "world \<Rightarrow> jsval" where
  "navType w = js_or (get (nav w) ''type'') (JStr TYPE_DEFAULT)"

definition navParams :: "world \<Rightarrow> jsval" where
  "navParams w = js_or (get (nav w) ''params'') (JObj [])"

definition navQuery :: "world \<Rightarrow> jsval" where
  "navQuery w = js_or (get (nav w) ''query'') (JObj [])"

definition pageTitle :: "world \<Rightarrow> jsval" where
  "pageTitle w = js_or (get (navParams w) ''pageTitle'') JNull"

section \<open>The inbound handler\<close>

text \<open>
  Lines 169 and 172: \<^verbatim>\<open>var currentRoute = props.currentRoute || {}\<close>,
  \<^verbatim>\<open>var currentUrl = currentRoute.url\<close>.
\<close>

definition currentUrl :: "world \<Rightarrow> jsval" where
  "currentUrl w = get (js_or (currentRoute w) (JObj [])) ''url''"

text \<open>Lines 213--218: the payload of the navigate action.\<close>

definition popstatePayload :: "string \<Rightarrow> event \<Rightarrow> obj" where
  "popstatePayload url e =
     [(''type'', JStr TYPE_POPSTATE),
      (''url'', JStr url),
      (''params'', js_and (state e) (get (state e) ''params'')),
      (''query'', js_and (state e) (get (state e) ''query''))]"

text \<open>
  Lines 174--184: the text of the before-unload callback. A thrown error is caught and
  passed to \<^verbatim>\<open>console.warn\<close>, and the text stays the empty string.
\<close>

definition callOnBeforeUnload :: "world \<Rightarrow> jsval \<times> world" where
  "callOnBeforeUnload w =
     (case onbeforeunload w of
        None \<Rightarrow> (JStr [], w)
      | Some (Returns v) \<Rightarrow> (v, log CallOnBeforeUnload w)
      | Some (Throws err) \<Rightarrow> (JStr [], log (ConsoleWarn err) (log CallOnBeforeUnload w)))"

text \<open>Lines 185--187: \<^verbatim>\<open>onBeforeUnloadText ? window.confirm(onBeforeUnloadText) : true\<close>.\<close>

definition askConfirm :: "jsval \<Rightarrow> world \<Rightarrow> bool \<times> world" where
  "askConfirm text w =
     (if truthy text then (confirm w text, log (Confirm text) w) else (True, w))"

text \<open>Lines 160--161: \<^verbatim>\<open>e.state === null && !!stateFromHistory\<close>.\<close>

definition isPageloadPopstate :: "event \<Rightarrow> world \<Rightarrow> bool" where
  "isPageloadPopstate e w = (strict_eq (state e) JNull \<and> getState (hist w) \<noteq> None)"

definition onHistoryChange :: "options \<Rightarrow> event \<Rightarrow> world \<Rightarrow> world" where
  "onHistoryChange opts e w =
     (if truthy (ignorePageLoadPopstate w) \<and> isPageloadPopstate e w then w
      else
        let url = getUrl (hist w);
            (onBeforeUnloadText, w1) = callOnBeforeUnload w;
            (confirmResult, w2) = askConfirm onBeforeUnloadText w1;
            historyState0 = [(''query'', navQuery w), (''params'', navParams w)];
            historyState =
              (if saveScrollInState opts
               then set_field ''scroll'' (windowScroll w2) historyState0
               else historyState0)
        in
          if \<not> confirmResult then pushState historyState (pageTitle w) (currentUrl w) w2
          else if \<not> strict_eq (JStr url) (currentUrl w) then
            executeAction (popstatePayload url e) (w2\<lparr>onbeforeunload := None\<rparr>)
          else w2)"

section \<open>Scroll capture\<close>

text \<open>
  \<^verbatim>\<open>(this._history.getState && this._history.getState()) || {}\<close>, in lines 224--225 and
  299--302. The handle always has \<^verbatim>\<open>getState\<close>, so this is the state object, or the
  empty object when the state is null.
\<close>

definition stateOrEmpty :: "history \<Rightarrow> obj" where
  "stateOrEmpty h = (case getState h of None \<Rightarrow> [] | Some fs \<Rightarrow> fs)"

text \<open>
  Lines 299--304: \<^verbatim>\<open>historyState\<close> as above, then
  \<^verbatim>\<open>var scroll = (historyState && historyState.scroll) || {}\<close>.
\<close>

definition storedScroll :: "history \<Rightarrow> jsval" where
  "storedScroll h =
     (let historyState = JObj (stateOrEmpty h)
      in js_or (js_and historyState (get historyState ''scroll'')) (JObj []))"

text \<open>Lines 223--242.\<close>

definition saveScrollPosition :: "world \<Rightarrow> world" where
  "saveScrollPosition w =
     (let historyState = stateOrEmpty (hist w);
          sx = windowScrollX w;
          sy = windowScrollY w;
          stored = get (JObj historyState) ''scroll''
      in
        if truthy stored \<and> strict_eq (get stored ''x'') sx \<and> strict_eq (get stored ''y'') sy
        then w
        else replaceState (set_field ''scroll'' (JObj [(''x'', sx), (''y'', sy)]) historyState)
               JUndefined JUndefined w)"

text \<open>
  The window's timer service. \<^verbatim>\<open>setTimeout\<close> hands out a fresh positive handle and
  queues the callback for \<open>clock + delay\<close>; \<^verbatim>\<open>clearTimeout\<close> removes the timer with the
  given handle, if it is still pending. The only callback the component ever arms is
  \<^verbatim>\<open>this._saveScrollPosition\<close>, so a pending timer is its handle and its due time.
\<close>

definition setTimeout :: "nat \<Rightarrow> world \<Rightarrow> nat \<times> world" where
  "setTimeout delay w =
     (let h = Suc (timer_count w)
      in (h, log (SetTimeout h delay)
               (w\<lparr>timers := timers w @ [(h, clock w + delay)], timer_count := h\<rparr>)))"

definition clearTimeout :: "nat \<Rightarrow> world \<Rightarrow> world" where
  "clearTimeout h w =
     log (ClearTimeout h) (w\<lparr>timers := filter (\<lambda>t. fst t \<noteq> h) (timers w)\<rparr>)"

text \<open>
  Lines 139--147. \<^verbatim>\<open>this._scrollTimer\<close> is null (\<open>None\<close>) or a timer handle, and
  \<^verbatim>\<open>if (this._scrollTimer)\<close> tests the handle for truthiness.
\<close>

definition onScroll :: "world \<Rightarrow> world" where
  "onScroll w =
     (let w1 = (case scrollTimer w of
                  None \<Rightarrow> w
                | Some h \<Rightarrow> if h \<noteq> 0 then clearTimeout h w else w);
          (h, w2) = setTimeout 150 w1
      in w2\<lparr>scrollTimer := Some h\<rparr>)"

text \<open>
  Time passes: the clock advances and every timer that has come due fires, in the order
  the timers were armed. A timer that fires leaves the pending list and runs
  \<^verbatim>\<open>this._saveScrollPosition\<close>.
\<close>

definition fire :: "nat \<times> nat \<Rightarrow> world \<Rightarrow> world" where
  "fire t w = saveScrollPosition (log (TimerFired (fst t)) w)"

definition elapse :: "nat \<Rightarrow> world \<Rightarrow> world" where
  "elapse d w =
     (let now = clock w + d;
          due = filter (\<lambda>t. snd t \<le> now) (timers w);
          rest = filter (\<lambda>t. \<not> snd t \<le> now) (timers w)
      in fold fire due (w\<lparr>clock := now, timers := rest\<rparr>))"

section \<open>The outbound sync\<close>

text \<open>Lines 252--309.\<close>

definition componentDidUpdate :: "options \<Rightarrow> world \<Rightarrow> world" where
  "componentDidUpdate opts w =
     (if navType w = JStr TYPE_CLICK \<or> navType w = JStr TYPE_DEFAULT
           \<or> navType w = JStr TYPE_REPLACESTATE
      then
        if strict_eq (get (nav w) ''url'') (JStr (getUrl (hist w))) then w
        else
          let historyState0 = [(''params'', navParams w), (''query'', navQuery w)];
              (historyState, w1) =
                (if truthy (get (nav w) ''preserveScrollPosition'')
                 then
                   (if saveScrollInState opts
                    then set_field ''scroll'' (windowScroll w) historyState0
                    else historyState0,
                    w)
                 else
                   (if saveScrollInState opts
                    then set_field ''scroll'' (JObj [(''x'', JNum 0), (''y'', JNum 0)])
                           historyState0
                    else historyState0,
                    if enableScroll opts then scrollTo (JNum 0) (JNum 0) w else w))
          in
            if navType w = JStr TYPE_REPLACESTATE
            then replaceState historyState (pageTitle w) (get (nav w) ''url'') w1
            else pushState historyState (pageTitle w) (get (nav w) ''url'') w1
      else if navType w = JStr TYPE_POPSTATE then
        if enableScroll opts then
          let scroll = storedScroll (hist w)
          in scrollTo (js_or (get scroll ''x'') (JNum 0)) (js_or (get scroll ''y'') (JNum 0)) w
        else w
      else w)"

section \<open>Mount and unmount\<close>

text \<open>Lines 71--77.\<close>

definition shouldIgnorePopstateOnPageLoad :: "options \<Rightarrow> jsval" where
  "shouldIgnorePopstateOnPageLoad opts =
     (case ignorePopstateOnPageLoad opts of
        IgnoreFunction r \<Rightarrow> r
      | IgnoreValue v \<Rightarrow> JBool (truthy v))"

text \<open>
  Lines 80--137. \<open>hist w\<close> is the handle \<^verbatim>\<open>options.historyCreator()\<close> returned.
\<close>

definition componentDidMount :: "options \<Rightarrow> world \<Rightarrow> world" where
  "componentDidMount opts w =
     (let w1 = w\<lparr>ignorePageLoadPopstate := shouldIgnorePopstateOnPageLoad opts\<rparr>;
          w2 = (if truthy (ignorePageLoadPopstate w1) \<and> getState (hist w1) = None
                then replaceState [] JUndefined JUndefined w1
                else w1);
          w3 = w2\<lparr>scrollTimer := None\<rparr>;
          w4 = (if checkRouteOnPageLoad opts
                then
                  let urlFromHistory = getUrl (hist w3);
                      urlFromState = js_and (currentRoute w3) (get (currentRoute w3) ''url'')
                  in
                    if \<not> strict_eq (JStr urlFromHistory) urlFromState
                    then executeAction
                           [(''type'', JStr TYPE_PAGELOAD), (''url'', JStr urlFromHistory)] w3
                    else w3
                else w3);
          w5 = log HistoryOn w4;
          w6 = (if HAS_PUSH_STATE w5
                then
                  let w' = log RemovePreloadListener w5
                  in (case lastPendingPopstateEvent w' of
                        None \<Rightarrow> w'
                      | Some e \<Rightarrow> (onHistoryChange opts e w')\<lparr>lastPendingPopstateEvent := None\<rparr>)
                else w5)
      in if saveScrollInState opts then log AddScrollListener w6 else w6)"

text \<open>Lines 244--250.\<close>

definition componentWillUnmount :: "options \<Rightarrow> world \<Rightarrow> world" where
  "componentWillUnmount opts w =
     (let w1 = log HistoryOff w
      in if saveScrollInState opts then log RemoveScrollListener w1 else w1)"

section \<open>What the host delivers to a mounted component\<close>

text \<open>
  A scroll notification (the viewport has moved to the given offsets), the passing of
  time, a native history change, and an update of the props followed by
  \<^verbatim>\<open>componentDidUpdate\<close>.
\<close>

datatype notification =
    Scroll int int
  | Tick nat
  | Popstate event
  | Update jsval jsval

fun deliver :: "options \<Rightarrow> notification \<Rightarrow> world \<Rightarrow> world" where
  "deliver opts (Scroll x y) w =
     onScroll (w\<lparr>scrollX := Some x, pageXOffset := Some x,
                scrollY := Some y, pageYOffset := Some y\<rparr>)"
| "deliver opts (Tick d) w = elapse d w"
| "deliver opts (Popstate e) w = onHistoryChange opts e w"
| "deliver opts (Update route descriptor) w =
     componentDidUpdate opts (w\<lparr>currentRoute := route, currentNavigate := descriptor\<rparr>)"

definition run :: "options \<Rightarrow> notification list \<Rightarrow> world \<Rightarrow> world" where
  "run opts ns w = fold (deliver opts) ns w"

section \<open>Observing a run\<close>

text \<open>
  What a handler did is read off the world it returns: the calls it added to the trace,
  among them the dispatches, the history mutations and the viewport moves.
\<close>

definition emitted :: "world \<Rightarrow> world \<Rightarrow> effect list" where
  "emitted w w' = drop (length (trace w)) (trace w')"

fun is_dispatch :: "effect \<Rightarrow> bool" where
  "is_dispatch (ExecuteAction p) = True"
| "is_dispatch x = False"

fun is_mutation :: "effect \<Rightarrow> bool" where
  "is_mutation (PushState s t u) = True"
| "is_mutation (ReplaceState s t u) = True"
| "is_mutation x = False"


fun is_fired :: "effect \<Rightarrow> bool" where
  "is_fired (TimerFired h) = True"
| "is_fired x = False"

text \<open>
  The value of \<^verbatim>\<open>confirmResult\<close> (line 185) and the world in which lines 189--220 run,
  both as lines 174--187 leave them.
\<close>

definition confirmResult :: "world \<Rightarrow> bool" where
  "confirmResult w = (let (text, w1) = callOnBeforeUnload w in fst (askConfirm text w1))"

definition afterConfirm :: "world \<Rightarrow> world" where
  "afterConfirm w = (let (text, w1) = callOnBeforeUnload w in snd (askConfirm text w1))"

text \<open>The value of \<^verbatim>\<open>historyState\<close> after lines 189--201.\<close>

definition historyStateOnChange :: "options \<Rightarrow> world \<Rightarrow> obj" where
  "historyStateOnChange opts w =
     (let historyState0 = [(''query'', navQuery w), (''params'', navParams w)]
      in if saveScrollInState opts
         then set_field ''scroll'' (windowScroll w) historyState0
         else historyState0)"

text \<open>The calls of lines 174--187, in order.\<close>

definition unloadCalls :: "world \<Rightarrow> effect list" where
  "unloadCalls w =
     (case onbeforeunload w of
        None \<Rightarrow> []
      | Some (Returns v) \<Rightarrow> if truthy v then [CallOnBeforeUnload, Confirm v] else [CallOnBeforeUnload]
      | Some (Throws err) \<Rightarrow> [CallOnBeforeUnload, ConsoleWarn err])"

text \<open>
  The value of \<^verbatim>\<open>historyState\<close> after lines 266--281, and the viewport reset of lines
  275--277.
\<close>

definition historyStateOnUpdate :: "options \<Rightarrow> world \<Rightarrow> obj" where
  "historyStateOnUpdate opts w =
     (let historyState0 = [(''params'', navParams w), (''query'', navQuery w)]
      in if saveScrollInState opts
         then set_field ''scroll''
                (if truthy (get (nav w) ''preserveScrollPosition'')
                 then windowScroll w
                 else JObj [(''x'', JNum 0), (''y'', JNum 0)])
                historyState0
         else historyState0)"

definition scrollReset :: "options \<Rightarrow> world \<Rightarrow> effect list" where
  "scrollReset opts w =
     (if \<not> truthy (get (nav w) ''preserveScrollPosition'') \<and> enableScroll opts
      then [ScrollTo (JNum 0) (JNum 0)] else [])"

text \<open>
  The same world with the descriptor's \<^verbatim>\<open>type\<close> field set to \<open>t\<close> and every other field
  of the descriptor as it is.
\<close>

definition withType :: "string \<Rightarrow> world \<Rightarrow> world" where
  "withType t w =
     w\<lparr>currentNavigate :=
         JObj (set_field ''type'' (JStr t) (case nav w of JObj fs \<Rightarrow> fs | _ \<Rightarrow> []))\<rparr>"

text \<open>The test of lines 230--234.\<close>

definition scrollAlreadyStored :: "world \<Rightarrow> bool" where
  "scrollAlreadyStored w =
     (let stored = get (JObj (stateOrEmpty (hist w))) ''scroll''
      in truthy stored \<and> strict_eq (get stored ''x'') (windowScrollX w)
         \<and> strict_eq (get stored ''y'') (windowScrollY w))"

text \<open>
  The \<^verbatim>\<open>clearTimeout\<close> call of lines 140--142, if \<^verbatim>\<open>_onScroll\<close> makes it.
\<close>

definition cancelled :: "world \<Rightarrow> effect list" where
  "cancelled w =
     (case scrollTimer w of None \<Rightarrow> [] | Some h \<Rightarrow> if h \<noteq> 0 then [ClearTimeout h] else [])"

text \<open>
  At most one timer is pending, and \<^verbatim>\<open>this._scrollTimer\<close> holds its handle.
\<close>

definition timerInvariant :: "world \<Rightarrow> bool" where
  "timerInvariant w =
     (case timers w of
        [] \<Rightarrow> True
      | t # ts \<Rightarrow> ts = [] \<and> scrollTimer w = Some (fst t) \<and> fst t \<noteq> 0)"

text \<open>
  A run of scroll notifications, each given by the offsets the viewport has moved to and
  the time that passes before the next notification.
\<close>

fun burst :: "(int \<times> int \<times> nat) list \<Rightarrow> notification list" where
  "burst [] = []"
| "burst ((x, y, gap) # rest) = Scroll x y # Tick gap # burst rest"

section \<open>Example worlds\<close>

text \<open>
  A mounted component on the page \<^verbatim>\<open>/a\<close>, and the same component after the browser has
  gone back to the entry \<^verbatim>\<open>/item/1\<close> while the application still shows \<^verbatim>\<open>/item/0\<close>.
\<close>

definition page_a :: hentry where
  "page_a = \<lparr>h_state = Some [], h_title = JStr ''A'', h_url = ''/a''\<rparr>"

definition world0 :: world where
  "world0 =
     \<lparr>currentRoute = JObj [(''url'', JStr ''/a'')],
      currentNavigate =
        JObj [(''type'', JStr ''click''), (''url'', JStr ''/a''),
              (''params'', JObj []), (''query'', JObj [])],
      ignorePageLoadPopstate = JBool True,
      scrollTimer = None,
      hist = \<lparr>current = page_a, below = []\<rparr>,
      scrollX = Some 0, pageXOffset = Some 0, scrollY = Some 120, pageYOffset = Some 120,
      onbeforeunload = None,
      confirm = (\<lambda>m. False),
      timers = [], timer_count = 0, clock = 0,
      HAS_PUSH_STATE = True,
      lastPendingPopstateEvent = None,
      trace = []\<rparr>"

definition item_1 :: hentry where
  "item_1 = \<lparr>h_state = Some [(''params'', JObj [(''id'', JNum 1)]), (''query'', JObj [])],
             h_title = JStr ''Item'', h_url = ''/item/1''\<rparr>"

definition world_back :: world where
  "world_back =
     world0\<lparr>currentRoute := JObj [(''url'', JStr ''/item/0'')],
            hist := \<lparr>current = item_1, below = []\<rparr>\<rparr>"

definition world_same :: world where
  "world_same =
     world_back\<lparr>currentRoute := JObj [(''url'', JStr ''/item/1'')],
                 onbeforeunload := Some (Returns (JStr []))\<rparr>"

definition event_item_1 :: event where
  "event_item_1 = \<lparr>state = JObj [(''params'', JObj [(''id'', JNum 1)]), (''query'', JObj [])]\<rparr>"

text \<open>The same, with a before-unload callback that asks, and with one that throws.\<close>

definition world_guarded :: world where
  "world_guarded = world_back\<lparr>onbeforeunload := Some (Returns (JStr ''Leave this page?''))\<rparr>"

definition world_throwing :: world where
  "world_throwing = world_back\<lparr>onbeforeunload := Some (Throws (JStr ''boom''))\<rparr>"

text \<open>
  On the page \<^verbatim>\<open>/a\<close>, a programmatic navigation to \<^verbatim>\<open>/b\<close> whose descriptor has no
  \<^verbatim>\<open>type\<close>, the same navigation by a click, and the descriptor of a later return.
\<close>

definition world_notype :: world where
  "world_notype =
     world0\<lparr>currentNavigate :=
              JObj [(''url'', JStr ''/b''),
                    (''params'', JObj [(''id'', JNum 7), (''pageTitle'', JStr ''B'')]),
                    (''query'', JObj [(''q'', JStr ''x'')])]\<rparr>"



text \<open>The page \<^verbatim>\<open>/a\<close> with the viewport's offset already saved in its state.\<close>

definition world_saved :: world where
  "world_saved =
     world0\<lparr>hist :=
       \<lparr>current = page_a\<lparr>h_state := Some [(''scroll'', JObj [(''x'', JNum 0), (''y'', JNum 120)])]\<rparr>,
        below = []\<rparr>\<rparr>"

text \<open>
  The page \<^verbatim>\<open>/a\<close> with a state that holds \<^verbatim>\<open>params\<close>, \<^verbatim>\<open>query\<close> and an older scroll
  offset, and the same page with no state at all.
\<close>

definition world_scrolled :: world where
  "world_scrolled =
     world0\<lparr>hist :=
       \<lparr>current =
          page_a\<lparr>h_state :=
            Some [(''params'', JObj [(''id'', JNum 1)]), (''query'', JObj []),
                  (''scroll'', JObj [(''x'', JNum 0), (''y'', JNum 5)])]\<rparr>,
        below = [item_1]\<rparr>\<rparr>"

definition world_stateless :: world where
  "world_stateless = world0\<lparr>hist := \<lparr>current = page_a\<lparr>h_state := None\<rparr>, below = []\<rparr>\<rparr>"

text \<open>The page \<^verbatim>\<open>/a\<close> just after a scroll notification, with the debounce timer armed.\<close>

definition world_armed :: world where
  "world_armed = deliver defaultOptions (Scroll 0 30) world0"

section \<open>Properties\<close>

subsection \<open>Auxiliary facts\<close>

lemma trace_log [simp]: "trace (log x w) = trace w @ [x]"
  by (simp add: log_def)

lemma emitted_self [simp]: "emitted w w = []"
  by (simp add: emitted_def)

lemma emitted_append: "trace w' = trace w @ xs \<Longrightarrow> emitted w w' = xs"
  by (simp add: emitted_def)

lemma afterConfirm_cases:
  "afterConfirm w =
     (case onbeforeunload w of
        None \<Rightarrow> w
      | Some (Returns v) \<Rightarrow>
          if truthy v then log (Confirm v) (log CallOnBeforeUnload w) else log CallOnBeforeUnload w
      | Some (Throws err) \<Rightarrow> log (ConsoleWarn err) (log CallOnBeforeUnload w))"
  by (simp add: afterConfirm_def callOnBeforeUnload_def askConfirm_def
      split: option.splits hook.splits)

lemma confirmResult_cases:
  "confirmResult w =
     (case onbeforeunload w of
        None \<Rightarrow> True
      | Some (Returns v) \<Rightarrow> (truthy v \<longrightarrow> confirm w v)
      | Some (Throws err) \<Rightarrow> True)"
  by (simp add: confirmResult_def callOnBeforeUnload_def askConfirm_def log_def
      split: option.splits hook.splits)

lemma onHistoryChange_live:
  assumes "\<not> (truthy (ignorePageLoadPopstate w) \<and> isPageloadPopstate e w)"
  shows "onHistoryChange opts e w =
     (if \<not> confirmResult w
      then pushState (historyStateOnChange opts w)
             (pageTitle w) (currentUrl w) (afterConfirm w)
      else if \<not> strict_eq (JStr (getUrl (hist w))) (currentUrl w)
      then executeAction (popstatePayload (getUrl (hist w)) e)
             ((afterConfirm w)\<lparr>onbeforeunload := None\<rparr>)
      else afterConfirm w)"
proof -
  have ws: "windowScroll (afterConfirm w) = windowScroll w"
    and cu: "currentUrl (afterConfirm w) = currentUrl w"
    by (simp_all add: afterConfirm_cases windowScroll_def windowScrollX_def windowScrollY_def
        currentUrl_def log_def split: option.splits hook.splits)
  obtain msg w1 where c: "callOnBeforeUnload w = (msg, w1)"
    by (cases "callOnBeforeUnload w")
  obtain ok w2 where a: "askConfirm msg w1 = (ok, w2)"
    by (cases "askConfirm msg w1")
  have ok: "confirmResult w = ok" and w2: "afterConfirm w = w2"
    using c a by (simp_all add: confirmResult_def afterConfirm_def)
  from assms have live: "(truthy (ignorePageLoadPopstate w) \<and> isPageloadPopstate e w) = False"
    by simp
  show ?thesis
    using ws unfolding ok w2
    by (simp add: onHistoryChange_def live c a Let_def historyStateOnChange_def)
qed

lemma afterConfirm_frame [simp]:
  "hist (afterConfirm w) = hist w"
  "onbeforeunload (afterConfirm w) = onbeforeunload w"
  by (simp_all add: afterConfirm_cases log_def split: option.splits hook.splits)

lemma afterConfirm_trace: "trace (afterConfirm w) = trace w @ unloadCalls w"
  by (simp add: afterConfirm_cases unloadCalls_def split: option.splits hook.splits)

lemma unloadCalls_quiet [simp]:
  "filter is_dispatch (unloadCalls w) = []"
  "filter is_mutation (unloadCalls w) = []"
  by (simp_all add: unloadCalls_def split: option.splits hook.splits)

lemma onHistoryChange_emitted:
  assumes live: "\<not> (truthy (ignorePageLoadPopstate w) \<and> isPageloadPopstate e w)"
  shows "emitted w (onHistoryChange opts e w) =
     unloadCalls w @
     (if \<not> confirmResult w
      then [PushState (historyStateOnChange opts w)
             (pageTitle w) (currentUrl w)]
      else if \<not> strict_eq (JStr (getUrl (hist w))) (currentUrl w)
      then [ExecuteAction (popstatePayload (getUrl (hist w)) e)]
      else [])"
  by (rule emitted_append)
     (simp add: onHistoryChange_live [OF live] afterConfirm_trace pushState_def executeAction_def)

lemma payload_fields:
  "get (JObj (popstatePayload u e)) ''type'' = JStr ''popstate''"
  "get (JObj (popstatePayload u e)) ''url'' = JStr u"
  "get (JObj (popstatePayload u e)) ''params'' = js_and (state e) (get (state e) ''params'')"
  "get (JObj (popstatePayload u e)) ''query'' = js_and (state e) (get (state e) ''query'')"
  by (simp_all add: popstatePayload_def TYPE_POPSTATE_def)

subsection \<open>The inbound handler: \<^verbatim>\<open>_onHistoryChange\<close>\<close>

text \<open>
  Lines 90--99: when \<^verbatim>\<open>ignorePopstateOnPageLoad\<close> resolves to a truthy value, mounting
  caches it in \<^verbatim>\<open>this._ignorePageLoadPopstate\<close> and leaves the native history with a
  state that is not null, also after a buffered popstate event has been replayed.
\<close>

lemma onHistoryChange_keeps:
  "getState (hist w) \<noteq> None \<Longrightarrow> getState (hist (onHistoryChange opts e w)) \<noteq> None"
  "ignorePageLoadPopstate (onHistoryChange opts e w) = ignorePageLoadPopstate w"
proof -
  have a: "ignorePageLoadPopstate (afterConfirm w) = ignorePageLoadPopstate w"
    by (simp add: afterConfirm_cases log_def split: option.splits hook.splits)
  show "getState (hist w) \<noteq> None \<Longrightarrow> getState (hist (onHistoryChange opts e w)) \<noteq> None"
    by (cases "truthy (ignorePageLoadPopstate w) \<and> isPageloadPopstate e w")
       (simp_all add: onHistoryChange_live pushState_def executeAction_def log_def getState_def
          h_pushState_def,
        simp add: onHistoryChange_def)
  show "ignorePageLoadPopstate (onHistoryChange opts e w) = ignorePageLoadPopstate w"
    by (cases "truthy (ignorePageLoadPopstate w) \<and> isPageloadPopstate e w")
       (simp_all add: onHistoryChange_live a pushState_def executeAction_def log_def,
        simp add: onHistoryChange_def)
qed

lemma componentDidMount_seeds_state:
  assumes ign: "truthy (shouldIgnorePopstateOnPageLoad opts)"
  shows "ignorePageLoadPopstate (componentDidMount opts w) = shouldIgnorePopstateOnPageLoad opts
       \<and> getState (hist (componentDidMount opts w)) \<noteq> None"
proof -
  let ?P = "\<lambda>v. ignorePageLoadPopstate v = shouldIgnorePopstateOnPageLoad opts
                \<and> getState (hist v) \<noteq> None"
  define w1 where "w1 = w\<lparr>ignorePageLoadPopstate := shouldIgnorePopstateOnPageLoad opts\<rparr>"
  define w2 where "w2 = (if truthy (ignorePageLoadPopstate w1) \<and> getState (hist w1) = None
                then replaceState [] JUndefined JUndefined w1 else w1)"
  define w3 where "w3 = w2\<lparr>scrollTimer := None\<rparr>"
  define w4 where "w4 = (if checkRouteOnPageLoad opts
                then
                  let urlFromHistory = getUrl (hist w3);
                      urlFromState = js_and (currentRoute w3) (get (currentRoute w3) ''url'')
                  in
                    if \<not> strict_eq (JStr urlFromHistory) urlFromState
                    then executeAction
                           [(''type'', JStr TYPE_PAGELOAD), (''url'', JStr urlFromHistory)] w3
                    else w3
                else w3)"
  define w5 where "w5 = log HistoryOn w4"
  define w6 where "w6 = (if HAS_PUSH_STATE w5
                then
                  let w' = log RemovePreloadListener w5
                  in (case lastPendingPopstateEvent w' of
                        None \<Rightarrow> w'
                      | Some e \<Rightarrow> (onHistoryChange opts e w')\<lparr>lastPendingPopstateEvent := None\<rparr>)
                else w5)"
  have m: "componentDidMount opts w = (if saveScrollInState opts then log AddScrollListener w6 else w6)"
    unfolding componentDidMount_def w1_def w2_def w3_def w4_def w5_def w6_def Let_def ..
  have "?P w2"
    using ign
    by (simp add: w2_def w1_def replaceState_def log_def getState_def h_replaceState_def)
  then have "?P w3"
    by (simp add: w3_def)
  then have "?P w4"
    by (simp add: w4_def Let_def executeAction_def log_def)
  then have p5: "?P w5"
    by (simp add: w5_def log_def)
  then have p5': "?P (log RemovePreloadListener w5)"
    by (simp add: log_def)
  have "?P w6"
  proof (cases "HAS_PUSH_STATE w5")
    case False
    with p5 show ?thesis by (simp add: w6_def)
  next
    case True
    show ?thesis
    proof (cases "lastPendingPopstateEvent (log RemovePreloadListener w5)")
      case None
      with True p5' show ?thesis by (simp add: w6_def Let_def)
    next
      case (Some e)
      with True p5' show ?thesis
        by (simp add: w6_def Let_def onHistoryChange_keeps)
    qed
  qed
  then show ?thesis
    by (simp add: m log_def)
qed

text \<open>
  Claim C1. When the cached flag \<^verbatim>\<open>this._ignorePageLoadPopstate\<close> is true, the event's
  state is null and the native history's \<^verbatim>\<open>getState()\<close> is not null (an object), the handler
  returns at once: the world is left as it was, so no navigation action is dispatched,
  the history is not mutated, and neither the before-unload callback nor
  \<^verbatim>\<open>window.confirm\<close> is called (nothing at all is added to the trace).
\<close>

theorem pageload_popstate_discarded:
  assumes "truthy (ignorePageLoadPopstate w)"
    and "state e = JNull"
    and "getState (hist w) \<noteq> None"
  shows "onHistoryChange opts e w = w \<and> emitted w (onHistoryChange opts e w) = []"
  using assms by (simp add: onHistoryChange_def isPageloadPopstate_def strict_eq_def)

theorem pageload_popstate_discarded_witness:
  "truthy (ignorePageLoadPopstate world0) \<and> state \<lparr>state = JNull\<rparr> = JNull
   \<and> getState (hist world0) \<noteq> None
   \<and> onHistoryChange defaultOptions \<lparr>state = JNull\<rparr> world0 = world0
   \<and> emitted world0 (onHistoryChange defaultOptions \<lparr>state = JNull\<rparr> world0) = []"
  using pageload_popstate_discarded [of world0 "\<lparr>state = JNull\<rparr>" defaultOptions]
  by (simp add: world0_def getState_def page_a_def)

text \<open>
  Claim C3. For an event that is not discarded and whose confirmation is granted
  (\<^verbatim>\<open>confirmResult\<close> is true: no callback, a callback that throws or returns a falsy
  text, or a prompt answered with yes): when \<^verbatim>\<open>getUrl()\<close> differs from the current
  route's url (the \<^verbatim>\<open>url\<close> field of \<^verbatim>\<open>props.currentRoute\<close>, undefined when there is no
  route or no such field), the handler sets \<^verbatim>\<open>window.onbeforeunload\<close> to null and
  dispatches exactly one navigate action, of type \<^verbatim>\<open>popstate\<close>, with that url and with
  the \<^verbatim>\<open>params\<close> and \<^verbatim>\<open>query\<close> fields of the event's state (the state itself, null or
  undefined, when the event has none); when the urls are equal it dispatches nothing and
  leaves \<^verbatim>\<open>window.onbeforeunload\<close> as it is. In both cases the history is not mutated.
\<close>

theorem popstate_granted_dispatch:
  assumes live: "\<not> (truthy (ignorePageLoadPopstate w) \<and> isPageloadPopstate e w)"
    and granted: "confirmResult w"
  shows "currentUrl w =
           (case currentRoute w of
              JObj fs \<Rightarrow> (case map_of fs ''url'' of None \<Rightarrow> JUndefined | Some v \<Rightarrow> v)
            | _ \<Rightarrow> JUndefined)
       \<and> isPageloadPopstate e w = (state e = JNull \<and> getState (hist w) \<noteq> None)
       \<and> confirmResult w =
           (case onbeforeunload w of
              None \<Rightarrow> True
            | Some (Returns v) \<Rightarrow> (truthy v \<longrightarrow> confirm w v)
            | Some (Throws err) \<Rightarrow> True)
       \<and> (JStr (getUrl (hist w)) \<noteq> currentUrl w \<longrightarrow>
            onbeforeunload (onHistoryChange opts e w) = None
            \<and> filter is_dispatch (emitted w (onHistoryChange opts e w))
                = [ExecuteAction (popstatePayload (getUrl (hist w)) e)])
       \<and> (JStr (getUrl (hist w)) = currentUrl w \<longrightarrow>
            filter is_dispatch (emitted w (onHistoryChange opts e w)) = []
            \<and> onbeforeunload (onHistoryChange opts e w) = onbeforeunload w)
       \<and> filter is_mutation (emitted w (onHistoryChange opts e w)) = []
       \<and> hist (onHistoryChange opts e w) = hist w
       \<and> popstatePayload (getUrl (hist w)) e =
           [(''type'', JStr ''popstate''), (''url'', JStr (getUrl (hist w))),
            (''params'', if truthy (state e) then get (state e) ''params'' else state e),
            (''query'', if truthy (state e) then get (state e) ''query'' else state e)]
       \<and> (\<forall>fs. state e = JObj fs \<longrightarrow>
            get (JObj (popstatePayload (getUrl (hist w)) e)) ''params''
              = (case map_of fs ''params'' of None \<Rightarrow> JUndefined | Some v \<Rightarrow> v)
            \<and> get (JObj (popstatePayload (getUrl (hist w)) e)) ''query''
              = (case map_of fs ''query'' of None \<Rightarrow> JUndefined | Some v \<Rightarrow> v))
       \<and> (state e = JNull \<or> state e = JUndefined \<longrightarrow>
            get (JObj (popstatePayload (getUrl (hist w)) e)) ''params'' = state e
            \<and> get (JObj (popstatePayload (getUrl (hist w)) e)) ''query'' = state e)"
proof -
  let ?url = "getUrl (hist w)"
  let ?w' = "onHistoryChange opts e w"
  have se: "strict_eq (JStr ?url) (currentUrl w) = (JStr ?url = currentUrl w)"
    by (simp add: strict_eq_def)
  have lv: "?w' =
              (if JStr ?url \<noteq> currentUrl w
               then executeAction (popstatePayload ?url e) ((afterConfirm w)\<lparr>onbeforeunload := None\<rparr>)
               else afterConfirm w)"
    using granted by (simp add: onHistoryChange_live [OF live] se)
  have em: "emitted w ?w' =
              unloadCalls w @
              (if JStr ?url \<noteq> currentUrl w then [ExecuteAction (popstatePayload ?url e)] else [])"
    using granted by (simp add: onHistoryChange_emitted [OF live] se)
  have pl: "popstatePayload ?url e =
           [(''type'', JStr ''popstate''), (''url'', JStr ?url),
            (''params'', if truthy (state e) then get (state e) ''params'' else state e),
            (''query'', if truthy (state e) then get (state e) ''query'' else state e)]"
    by (simp add: popstatePayload_def TYPE_POPSTATE_def js_and_def)
  have c1: "currentUrl w =
           (case currentRoute w of
              JObj fs \<Rightarrow> (case map_of fs ''url'' of None \<Rightarrow> JUndefined | Some v \<Rightarrow> v)
            | _ \<Rightarrow> JUndefined)"
    by (cases "currentRoute w") (simp_all add: currentUrl_def js_or_def)
  have c0: "isPageloadPopstate e w = (state e = JNull \<and> getState (hist w) \<noteq> None)"
    by (cases "state e") (simp_all add: isPageloadPopstate_def strict_eq_def)
  have c2: "confirmResult w =
           (case onbeforeunload w of
              None \<Rightarrow> True
            | Some (Returns v) \<Rightarrow> (truthy v \<longrightarrow> confirm w v)
            | Some (Throws err) \<Rightarrow> True)"
    by (rule confirmResult_cases)
  have c3: "JStr ?url \<noteq> currentUrl w \<longrightarrow>
            onbeforeunload ?w' = None
            \<and> filter is_dispatch (emitted w ?w') = [ExecuteAction (popstatePayload ?url e)]"
    unfolding em by (simp add: lv executeAction_def log_def)
  have c4: "JStr ?url = currentUrl w \<longrightarrow>
            filter is_dispatch (emitted w ?w') = [] \<and> onbeforeunload ?w' = onbeforeunload w"
    unfolding em by (simp add: lv)
  have c5: "filter is_mutation (emitted w ?w') = []"
    unfolding em by simp
  have c6: "hist ?w' = hist w"
    by (simp add: lv executeAction_def log_def)
  have c7: "\<forall>fs. state e = JObj fs \<longrightarrow>
            get (JObj (popstatePayload ?url e)) ''params''
              = (case map_of fs ''params'' of None \<Rightarrow> JUndefined | Some v \<Rightarrow> v)
            \<and> get (JObj (popstatePayload ?url e)) ''query''
              = (case map_of fs ''query'' of None \<Rightarrow> JUndefined | Some v \<Rightarrow> v)"
    by (simp add: pl)
  have c8: "state e = JNull \<or> state e = JUndefined \<longrightarrow>
            get (JObj (popstatePayload ?url e)) ''params'' = state e
            \<and> get (JObj (popstatePayload ?url e)) ''query'' = state e"
    by (auto simp add: pl)
  show ?thesis
    by (intro conjI) (rule c1, rule c0, rule c2, rule c3, rule c4, rule c5, rule c6, rule pl,
        rule c7, rule c8)
qed

lemma world_back_live:
  "\<not> (truthy (ignorePageLoadPopstate world_back) \<and> isPageloadPopstate event_item_1 world_back)"
  by (simp add: isPageloadPopstate_def event_item_1_def strict_eq_def)

lemma world_back_granted: "confirmResult world_back"
  by (simp add: confirmResult_cases world_back_def world0_def)

theorem popstate_granted_dispatch_witness:
  "\<not> (truthy (ignorePageLoadPopstate world_back) \<and> isPageloadPopstate event_item_1 world_back)
   \<and> confirmResult world_back
   \<and> currentRoute world_back = JObj [(''url'', JStr ''/item/0'')]
   \<and> getUrl (hist world_back) = ''/item/1''
   \<and> currentUrl world_back = JStr ''/item/0''
   \<and> emitted world_back (onHistoryChange defaultOptions event_item_1 world_back)
       = [ExecuteAction
            [(''type'', JStr ''popstate''), (''url'', JStr ''/item/1''),
             (''params'', JObj [(''id'', JNum 1)]), (''query'', JObj [])]]
   \<and> onbeforeunload (onHistoryChange defaultOptions event_item_1 world_back) = None
   \<and> \<not> (truthy (ignorePageLoadPopstate world_same) \<and> isPageloadPopstate event_item_1 world_same)
   \<and> confirmResult world_same
   \<and> currentRoute world_same = JObj [(''url'', JStr ''/item/1'')]
   \<and> getUrl (hist world_same) = ''/item/1''
   \<and> currentUrl world_same = JStr ''/item/1''
   \<and> emitted world_same (onHistoryChange defaultOptions event_item_1 world_same)
       = [CallOnBeforeUnload]
   \<and> onbeforeunload (onHistoryChange defaultOptions event_item_1 world_same)
       = Some (Returns (JStr []))"
proof -
  have ls: "\<not> (truthy (ignorePageLoadPopstate world_same)
                \<and> isPageloadPopstate event_item_1 world_same)"
    by (simp add: isPageloadPopstate_def event_item_1_def strict_eq_def)
  have gs: "confirmResult world_same"
    by (simp add: confirmResult_cases world_same_def)
  have rb: "currentRoute world_back = JObj [(''url'', JStr ''/item/0'')]"
    and ub: "getUrl (hist world_back) = ''/item/1''"
    and rs: "currentRoute world_same = JObj [(''url'', JStr ''/item/1'')]"
    and us: "getUrl (hist world_same) = ''/item/1''"
    and os: "onbeforeunload world_same = Some (Returns (JStr []))"
    by (simp_all add: world_same_def world_back_def getUrl_def item_1_def)
  have eb: "emitted world_back (onHistoryChange defaultOptions event_item_1 world_back)
       = [ExecuteAction
            [(''type'', JStr ''popstate''), (''url'', JStr ''/item/1''),
             (''params'', JObj [(''id'', JNum 1)]), (''query'', JObj [])]]"
    by code_simp
  have es: "emitted world_same (onHistoryChange defaultOptions event_item_1 world_same)
       = [CallOnBeforeUnload]"
    by code_simp
  note tb = popstate_granted_dispatch [OF world_back_live world_back_granted, of defaultOptions]
  note ts = popstate_granted_dispatch [OF ls gs, of defaultOptions]
  have cb: "currentUrl world_back = JStr ''/item/0''"
    using tb by (simp add: rb)
  have cs: "currentUrl world_same = JStr ''/item/1''"
    using ts by (simp add: rs)
  have nb: "onbeforeunload (onHistoryChange defaultOptions event_item_1 world_back) = None"
    using tb by (simp add: cb ub)
  have ns: "onbeforeunload (onHistoryChange defaultOptions event_item_1 world_same)
       = Some (Returns (JStr []))"
    using ts by (simp add: cs us os)
  show ?thesis
    by (intro conjI)
       (rule world_back_live, rule world_back_granted, rule rb, rule ub, rule cb, rule eb, rule nb,
        rule ls, rule gs, rule rs, rule us, rule cs, rule es, rule ns)
qed

text \<open>
  Claim C4. For an event that is not discarded, when the before-unload callback returns
  a non-empty text (any truthy value) and the user answers the \<^verbatim>\<open>confirm\<close> prompt with
  no, the handler calls \<^verbatim>\<open>pushState\<close> exactly once, with the url of the current
  (pre-navigation) route, and dispatches no navigate action. Its calls are, in order:
  the callback, the prompt, the push.
\<close>

theorem popstate_denied_compensation:
  assumes live: "\<not> (truthy (ignorePageLoadPopstate w) \<and> isPageloadPopstate e w)"
    and hook: "onbeforeunload w = Some (Returns msg)"
    and nonempty: "truthy msg"
    and denied: "\<not> confirm w msg"
  shows "emitted w (onHistoryChange opts e w) =
           [CallOnBeforeUnload, Confirm msg,
            PushState (historyStateOnChange opts w)
              (pageTitle w) (currentUrl w)]
       \<and> filter is_dispatch (emitted w (onHistoryChange opts e w)) = []
       \<and> filter is_mutation (emitted w (onHistoryChange opts e w)) =
           [PushState (historyStateOnChange opts w)
              (pageTitle w) (currentUrl w)]"
proof -
  have "\<not> confirmResult w"
    using hook nonempty denied by (simp add: confirmResult_cases)
  moreover have "unloadCalls w = [CallOnBeforeUnload, Confirm msg]"
    using hook nonempty by (simp add: unloadCalls_def)
  ultimately show ?thesis
    by (simp add: onHistoryChange_emitted [OF live])
qed

theorem popstate_denied_compensation_witness:
  "\<not> (truthy (ignorePageLoadPopstate world_guarded) \<and> isPageloadPopstate event_item_1 world_guarded)
   \<and> onbeforeunload world_guarded = Some (Returns (JStr ''Leave this page?''))
   \<and> truthy (JStr ''Leave this page?'')
   \<and> \<not> confirm world_guarded (JStr ''Leave this page?'')
   \<and> emitted world_guarded (onHistoryChange defaultOptions event_item_1 world_guarded) =
       [CallOnBeforeUnload, Confirm (JStr ''Leave this page?''),
        PushState
          [(''query'', JObj []), (''params'', JObj []),
           (''scroll'', JObj [(''x'', JNum 0), (''y'', JNum 120)])]
          JNull (JStr ''/item/0'')]"
proof -
  have live: "\<not> (truthy (ignorePageLoadPopstate world_guarded)
                \<and> isPageloadPopstate event_item_1 world_guarded)"
    by (simp add: isPageloadPopstate_def event_item_1_def strict_eq_def)
  have hook: "onbeforeunload world_guarded = Some (Returns (JStr ''Leave this page?''))"
    by (simp add: world_guarded_def)
  have t: "truthy (JStr ''Leave this page?'')" by simp
  have d: "\<not> confirm world_guarded (JStr ''Leave this page?'')"
    by (simp add: world_guarded_def world_back_def world0_def)
  have hs: "historyStateOnChange defaultOptions world_guarded =
          [(''query'', JObj []), (''params'', JObj []),
           (''scroll'', JObj [(''x'', JNum 0), (''y'', JNum 120)])]"
    by (simp add: historyStateOnChange_def defaultOptions_def nav_def navParams_def navQuery_def
        world_guarded_def
        world_back_def world0_def js_or_def set_field_def windowScroll_def windowScrollX_def
        windowScrollY_def num_def)
  have ti: "pageTitle world_guarded = JNull"
    by (simp add: pageTitle_def navParams_def nav_def world_guarded_def world_back_def
        world0_def js_or_def)
  have c: "currentUrl world_guarded = JStr ''/item/0''"
    by (simp add: world_guarded_def world_back_def currentUrl_def js_or_def)
  show ?thesis
    using popstate_denied_compensation [OF live hook t d, of defaultOptions] live hook d
    by (simp add: hs ti c)
qed

text \<open>
  Claim C5. When the handler calls the before-unload callback and the callback throws,
  the error is caught and passed to \<^verbatim>\<open>console.warn\<close>, the text stays empty, so there is
  no prompt and the confirmation is granted; the handler then does what the granted
  branch does, exactly as for a callback that returns the empty text: one
  \<^verbatim>\<open>popstate\<close> dispatch when the urls differ, none when they are equal, and no history
  mutation. The handler returns normally in every case: the thrown error never leaves it.
\<close>

theorem beforeunload_throw_is_caught:
  assumes hook: "onbeforeunload w = Some (Throws err)"
    and invoked: "CallOnBeforeUnload \<in> set (emitted w (onHistoryChange opts e w))"
  shows "confirmResult w
       \<and> emitted w (onHistoryChange opts e w) =
           [CallOnBeforeUnload, ConsoleWarn err] @
           (if \<not> strict_eq (JStr (getUrl (hist w))) (currentUrl w)
            then [ExecuteAction (popstatePayload (getUrl (hist w)) e)] else [])
       \<and> hist (onHistoryChange opts e w) = hist w
       \<and> (\<not> strict_eq (JStr (getUrl (hist w))) (currentUrl w) \<longrightarrow>
            onbeforeunload (onHistoryChange opts e w) = None)
       \<and> emitted (w\<lparr>onbeforeunload := Some (Returns (JStr []))\<rparr>)
           (onHistoryChange opts e (w\<lparr>onbeforeunload := Some (Returns (JStr []))\<rparr>)) =
           CallOnBeforeUnload #
           (if \<not> strict_eq (JStr (getUrl (hist w))) (currentUrl w)
            then [ExecuteAction (popstatePayload (getUrl (hist w)) e)] else [])"
proof -
  let ?w0 = "w\<lparr>onbeforeunload := Some (Returns (JStr []))\<rparr>"
  have live: "\<not> (truthy (ignorePageLoadPopstate w) \<and> isPageloadPopstate e w)"
  proof
    assume "truthy (ignorePageLoadPopstate w) \<and> isPageloadPopstate e w"
    then have "onHistoryChange opts e w = w"
      by (simp add: onHistoryChange_def)
    with invoked show False by simp
  qed
  have g: "confirmResult w"
    using hook by (simp add: confirmResult_cases)
  have u: "unloadCalls w = [CallOnBeforeUnload, ConsoleWarn err]"
    using hook by (simp add: unloadCalls_def)
  have live0: "\<not> (truthy (ignorePageLoadPopstate ?w0) \<and> isPageloadPopstate e ?w0)"
    using live by (simp add: isPageloadPopstate_def)
  have g0: "confirmResult ?w0"
    by (simp add: confirmResult_cases)
  have u0: "unloadCalls ?w0 = [CallOnBeforeUnload]"
    by (simp add: unloadCalls_def)
  have same: "currentUrl ?w0 = currentUrl w"
    by (simp add: currentUrl_def)
  have h: "hist (onHistoryChange opts e w) = hist w"
    using g by (simp add: onHistoryChange_live [OF live] executeAction_def log_def)
  have n: "\<not> strict_eq (JStr (getUrl (hist w))) (currentUrl w) \<Longrightarrow>
            onbeforeunload (onHistoryChange opts e w) = None"
    using g by (simp add: onHistoryChange_live [OF live] executeAction_def log_def)
  show ?thesis
    using g g0 h n
    by (simp add: onHistoryChange_emitted [OF live] onHistoryChange_emitted [OF live0] u u0 same)
qed

theorem beforeunload_throw_is_caught_witness:
  "onbeforeunload world_throwing = Some (Throws (JStr ''boom''))
   \<and> CallOnBeforeUnload
        \<in> set (emitted world_throwing (onHistoryChange defaultOptions event_item_1 world_throwing))
   \<and> emitted world_throwing (onHistoryChange defaultOptions event_item_1 world_throwing) =
       [CallOnBeforeUnload, ConsoleWarn (JStr ''boom''),
        ExecuteAction
          [(''type'', JStr ''popstate''), (''url'', JStr ''/item/1''),
           (''params'', JObj [(''id'', JNum 1)]), (''query'', JObj [])]]"
proof -
  have live: "\<not> (truthy (ignorePageLoadPopstate world_throwing)
                \<and> isPageloadPopstate event_item_1 world_throwing)"
    by (simp add: isPageloadPopstate_def event_item_1_def strict_eq_def)
  have hook: "onbeforeunload world_throwing = Some (Throws (JStr ''boom''))"
    by (simp add: world_throwing_def)
  have u: "getUrl (hist world_throwing) = ''/item/1''"
    by (simp add: world_throwing_def world_back_def getUrl_def item_1_def)
  have c: "currentUrl world_throwing = JStr ''/item/0''"
    by (simp add: world_throwing_def world_back_def currentUrl_def js_or_def)
  have p: "popstatePayload ''/item/1'' event_item_1 =
            [(''type'', JStr ''popstate''), (''url'', JStr ''/item/1''),
             (''params'', JObj [(''id'', JNum 1)]), (''query'', JObj [])]"
    by (simp add: popstatePayload_def event_item_1_def TYPE_POPSTATE_def js_and_def)
  have g: "confirmResult world_throwing"
    by (simp add: confirmResult_cases hook)
  have i: "CallOnBeforeUnload
        \<in> set (emitted world_throwing (onHistoryChange defaultOptions event_item_1 world_throwing))"
    using g by (simp add: onHistoryChange_emitted [OF live] unloadCalls_def hook)
  show ?thesis
    using beforeunload_throw_is_caught [OF hook i] hook i
    by (simp add: u c p strict_eq_def)
qed

subsection \<open>The outbound sync: \<^verbatim>\<open>componentDidUpdate\<close>\<close>

lemma strict_eq_str [simp]: "strict_eq a (JStr u) = (a = JStr u)"
  by (cases a) (simp_all add: strict_eq_def)

lemma strict_eq_str' [simp]: "strict_eq (JStr u) b = (JStr u = b)"
  by (simp add: strict_eq_def)

lemma componentDidUpdate_same_url:
  assumes "navType w = JStr TYPE_CLICK \<or> navType w = JStr TYPE_DEFAULT
           \<or> navType w = JStr TYPE_REPLACESTATE"
    and "get (nav w) ''url'' = JStr (getUrl (hist w))"
  shows "componentDidUpdate opts w = w"
  using assms by (simp add: componentDidUpdate_def)

lemma componentDidUpdate_mutates:
  assumes ty: "navType w = JStr TYPE_CLICK \<or> navType w = JStr TYPE_DEFAULT
           \<or> navType w = JStr TYPE_REPLACESTATE"
    and ne: "get (nav w) ''url'' \<noteq> JStr (getUrl (hist w))"
  shows "hist (componentDidUpdate opts w) =
           (if navType w = JStr TYPE_REPLACESTATE
            then h_replaceState (historyStateOnUpdate opts w) (pageTitle w) (get (nav w) ''url'') (hist w)
            else h_pushState (historyStateOnUpdate opts w) (pageTitle w) (get (nav w) ''url'') (hist w))"
    and "emitted w (componentDidUpdate opts w) =
           scrollReset opts w @
           [if navType w = JStr TYPE_REPLACESTATE
            then ReplaceState (historyStateOnUpdate opts w) (pageTitle w) (get (nav w) ''url'')
            else PushState (historyStateOnUpdate opts w) (pageTitle w) (get (nav w) ''url'')]"
proof -
  have ty': "(navType w = JStr TYPE_CLICK \<or> navType w = JStr TYPE_DEFAULT
           \<or> navType w = JStr TYPE_REPLACESTATE) = True"
    using ty by simp
  show "hist (componentDidUpdate opts w) =
           (if navType w = JStr TYPE_REPLACESTATE
            then h_replaceState (historyStateOnUpdate opts w) (pageTitle w) (get (nav w) ''url'') (hist w)
            else h_pushState (historyStateOnUpdate opts w) (pageTitle w) (get (nav w) ''url'') (hist w))"
    using ne
    by (simp add: componentDidUpdate_def ty' Let_def historyStateOnUpdate_def pushState_def
        replaceState_def scrollTo_def log_def)
  show "emitted w (componentDidUpdate opts w) =
           scrollReset opts w @
           [if navType w = JStr TYPE_REPLACESTATE
            then ReplaceState (historyStateOnUpdate opts w) (pageTitle w) (get (nav w) ''url'')
            else PushState (historyStateOnUpdate opts w) (pageTitle w) (get (nav w) ''url'')]"
    using ne
    by (intro emitted_append)
       (simp add: componentDidUpdate_def ty' Let_def historyStateOnUpdate_def pushState_def
        replaceState_def scrollTo_def scrollReset_def)
qed


lemma map_of_set_field [simp]: "map_of (set_field k v fs) = (map_of fs)(k \<mapsto> v)"
  by (simp add: set_field_def update_conv')

lemma nav_withType: "nav (withType t w) = JObj (set_field ''type'' (JStr t) (case nav w of JObj fs \<Rightarrow> fs | _ \<Rightarrow> []))"
  by (simp add: withType_def nav_def js_or_def)

lemma get_nav_withType:
  "get (nav (withType t w)) k = (if k = ''type'' then JStr t else get (nav w) k)"
  by (cases "nav w") (simp_all add: nav_withType)

lemma withType_frame [simp]:
  "hist (withType t w) = hist w"
  "trace (withType t w) = trace w"
  "windowScroll (withType t w) = windowScroll w"
  "navParams (withType t w) = navParams w"
  "navQuery (withType t w) = navQuery w"
  "pageTitle (withType t w) = pageTitle w"
  by (simp_all add: navParams_def navQuery_def pageTitle_def get_nav_withType)
     (simp_all add: withType_def windowScroll_def windowScrollX_def windowScrollY_def)

lemma navType_withType: "t \<noteq> [] \<Longrightarrow> navType (withType t w) = JStr t"
  by (simp add: navType_def get_nav_withType js_or_def)

lemma withType_update [simp]:
  "historyStateOnUpdate opts (withType t w) = historyStateOnUpdate opts w"
  "scrollReset opts (withType t w) = scrollReset opts w"
  by (simp_all add: historyStateOnUpdate_def scrollReset_def get_nav_withType Let_def)


text \<open>
  Claim C2. For a descriptor of type \<^verbatim>\<open>click\<close>, \<^verbatim>\<open>default\<close> or \<^verbatim>\<open>replacestate\<close> whose url
  equals the native history's \<^verbatim>\<open>getUrl()\<close>, the sync does nothing: the world is left as
  it was, so there is no \<^verbatim>\<open>pushState\<close> or \<^verbatim>\<open>replaceState\<close>, no dispatch and no
  \<^verbatim>\<open>window.scrollTo\<close>.
\<close>

theorem sync_same_url_is_noop:
  assumes "navType w = JStr TYPE_CLICK \<or> navType w = JStr TYPE_DEFAULT
           \<or> navType w = JStr TYPE_REPLACESTATE"
    and "get (nav w) ''url'' = JStr (getUrl (hist w))"
  shows "componentDidUpdate opts w = w \<and> emitted w (componentDidUpdate opts w) = []"
  using assms by (simp add: componentDidUpdate_same_url)

theorem sync_same_url_is_noop_witness:
  "navType world0 = JStr TYPE_CLICK
   \<and> get (nav world0) ''url'' = JStr (getUrl (hist world0))
   \<and> componentDidUpdate defaultOptions world0 = world0"
proof -
  have t: "navType world0 = JStr TYPE_CLICK"
    by (simp add: navType_def nav_def world0_def js_or_def TYPE_CLICK_def)
  have u: "get (nav world0) ''url'' = JStr (getUrl (hist world0))"
    by (simp add: nav_def world0_def js_or_def getUrl_def page_a_def)
  show ?thesis
    using sync_same_url_is_noop [of world0 defaultOptions] t u by simp
qed


text \<open>
  Claim C10. A descriptor without a \<^verbatim>\<open>type\<close> field is handled as type \<^verbatim>\<open>default\<close>: when
  its url equals \<^verbatim>\<open>getUrl()\<close> the sync does nothing; otherwise it calls \<^verbatim>\<open>pushState\<close>
  once, and makes no other history mutation, with the descriptor's url and a state whose
  \<^verbatim>\<open>params\<close> and \<^verbatim>\<open>query\<close> are the descriptor's own fields of these names (the empty
  object for a field that is missing or falsy); the push puts a new entry on top of the
  current one instead of replacing it. The calls made, the viewport reset and the
  recorded scroll offset included, and the resulting history are those of the same
  descriptor with type \<^verbatim>\<open>click\<close>.
\<close>

theorem missing_type_is_default:
  assumes notype: "get (nav w) ''type'' = JUndefined"
  shows "navType w = JStr ''default''
       \<and> (\<forall>fs. currentNavigate w = JObj fs \<longrightarrow>
             nav w = JObj fs
             \<and> navParams w =
                 (case map_of fs ''params'' of
                    None \<Rightarrow> JObj [] | Some v \<Rightarrow> if truthy v then v else JObj [])
             \<and> navQuery w =
                 (case map_of fs ''query'' of
                    None \<Rightarrow> JObj [] | Some v \<Rightarrow> if truthy v then v else JObj [])
             \<and> get (nav w) ''url'' = (case map_of fs ''url'' of None \<Rightarrow> JUndefined | Some v \<Rightarrow> v)
             \<and> get (nav w) ''preserveScrollPosition'' =
                 (case map_of fs ''preserveScrollPosition'' of None \<Rightarrow> JUndefined | Some v \<Rightarrow> v))
       \<and> (\<not> truthy (currentNavigate w) \<longrightarrow>
             nav w = JObj [] \<and> navParams w = JObj [] \<and> navQuery w = JObj [])
       \<and> pageTitle w =
           (if truthy (get (navParams w) ''pageTitle'') then get (navParams w) ''pageTitle''
            else JNull)
       \<and> (get (nav w) ''url'' = JStr (getUrl (hist w)) \<longrightarrow> componentDidUpdate opts w = w)
       \<and> (get (nav w) ''url'' \<noteq> JStr (getUrl (hist w)) \<longrightarrow>
            emitted w (componentDidUpdate opts w) =
              (if \<not> truthy (get (nav w) ''preserveScrollPosition'') \<and> enableScroll opts
               then [ScrollTo (JNum 0) (JNum 0)] else []) @
              [PushState
                 ([(''params'', navParams w), (''query'', navQuery w)] @
                  (if saveScrollInState opts
                   then [(''scroll'',
                          if truthy (get (nav w) ''preserveScrollPosition'')
                          then JObj [(''x'', windowScrollX w), (''y'', windowScrollY w)]
                          else JObj [(''x'', JNum 0), (''y'', JNum 0)])]
                   else []))
                 (pageTitle w) (get (nav w) ''url'')]
            \<and> filter is_mutation (emitted w (componentDidUpdate opts w)) =
              [PushState (historyStateOnUpdate opts w) (pageTitle w) (get (nav w) ''url'')]
            \<and> map_of (historyStateOnUpdate opts w) ''params'' = Some (navParams w)
            \<and> map_of (historyStateOnUpdate opts w) ''query'' = Some (navQuery w)
            \<and> getState (hist (componentDidUpdate opts w)) = Some (historyStateOnUpdate opts w)
            \<and> below (hist (componentDidUpdate opts w)) = current (hist w) # below (hist w)
            \<and> depth (hist (componentDidUpdate opts w)) = Suc (depth (hist w)))
       \<and> emitted (withType ''click'' w) (componentDidUpdate opts (withType ''click'' w))
           = emitted w (componentDidUpdate opts w)
       \<and> hist (componentDidUpdate opts (withType ''click'' w)) = hist (componentDidUpdate opts w)
       \<and> navType (withType ''click'' w) = JStr ''click''
       \<and> (\<forall>k. k \<noteq> ''type'' \<longrightarrow> get (nav (withType ''click'' w)) k = get (nav w) k)"
proof -
  have ty: "navType w = JStr TYPE_DEFAULT"
    using notype by (simp add: navType_def js_or_def)
  have tyc: "navType (withType TYPE_CLICK w) = JStr TYPE_CLICK"
    by (simp add: navType_withType TYPE_CLICK_def)
  have nr: "JStr TYPE_DEFAULT \<noteq> JStr TYPE_REPLACESTATE" "JStr TYPE_CLICK \<noteq> JStr TYPE_REPLACESTATE"
    by (simp_all add: TYPE_DEFAULT_def TYPE_CLICK_def TYPE_REPLACESTATE_def)
  have urlc: "get (nav (withType TYPE_CLICK w)) ''url'' = get (nav w) ''url''"
    by (simp add: get_nav_withType)
  have hs: "historyStateOnUpdate opts w =
              [(''params'', navParams w), (''query'', navQuery w)] @
              (if saveScrollInState opts
               then [(''scroll'',
                      if truthy (get (nav w) ''preserveScrollPosition'')
                      then JObj [(''x'', windowScrollX w), (''y'', windowScrollY w)]
                      else JObj [(''x'', JNum 0), (''y'', JNum 0)])]
               else [])"
    by (simp add: historyStateOnUpdate_def Let_def set_field_def windowScroll_def)
  have c1: "navType w = JStr ''default''"
    using ty by (simp add: TYPE_DEFAULT_def)
  have c2: "\<forall>fs. currentNavigate w = JObj fs \<longrightarrow>
             nav w = JObj fs
             \<and> navParams w =
                 (case map_of fs ''params'' of
                    None \<Rightarrow> JObj [] | Some v \<Rightarrow> if truthy v then v else JObj [])
             \<and> navQuery w =
                 (case map_of fs ''query'' of
                    None \<Rightarrow> JObj [] | Some v \<Rightarrow> if truthy v then v else JObj [])
             \<and> get (nav w) ''url'' = (case map_of fs ''url'' of None \<Rightarrow> JUndefined | Some v \<Rightarrow> v)
             \<and> get (nav w) ''preserveScrollPosition'' =
                 (case map_of fs ''preserveScrollPosition'' of None \<Rightarrow> JUndefined | Some v \<Rightarrow> v)"
    by (simp add: nav_def navParams_def navQuery_def js_or_def split: option.splits)
  have c3: "\<not> truthy (currentNavigate w) \<longrightarrow>
             nav w = JObj [] \<and> navParams w = JObj [] \<and> navQuery w = JObj []"
    by (simp add: nav_def navParams_def navQuery_def js_or_def)
  have c4: "pageTitle w =
           (if truthy (get (navParams w) ''pageTitle'') then get (navParams w) ''pageTitle''
            else JNull)"
    by (simp add: pageTitle_def js_or_def)
  have c5: "get (nav w) ''url'' = JStr (getUrl (hist w)) \<longrightarrow> componentDidUpdate opts w = w"
    using ty by (simp add: componentDidUpdate_same_url)
  have c6: "get (nav w) ''url'' \<noteq> JStr (getUrl (hist w)) \<longrightarrow>
            emitted w (componentDidUpdate opts w) =
              (if \<not> truthy (get (nav w) ''preserveScrollPosition'') \<and> enableScroll opts
               then [ScrollTo (JNum 0) (JNum 0)] else []) @
              [PushState
                 ([(''params'', navParams w), (''query'', navQuery w)] @
                  (if saveScrollInState opts
                   then [(''scroll'',
                          if truthy (get (nav w) ''preserveScrollPosition'')
                          then JObj [(''x'', windowScrollX w), (''y'', windowScrollY w)]
                          else JObj [(''x'', JNum 0), (''y'', JNum 0)])]
                   else []))
                 (pageTitle w) (get (nav w) ''url'')]
            \<and> filter is_mutation (emitted w (componentDidUpdate opts w)) =
              [PushState (historyStateOnUpdate opts w) (pageTitle w) (get (nav w) ''url'')]
            \<and> map_of (historyStateOnUpdate opts w) ''params'' = Some (navParams w)
            \<and> map_of (historyStateOnUpdate opts w) ''query'' = Some (navQuery w)
            \<and> getState (hist (componentDidUpdate opts w)) = Some (historyStateOnUpdate opts w)
            \<and> below (hist (componentDidUpdate opts w)) = current (hist w) # below (hist w)
            \<and> depth (hist (componentDidUpdate opts w)) = Suc (depth (hist w))"
  proof
    assume False: "get (nav w) ''url'' \<noteq> JStr (getUrl (hist w))"
    have e: "emitted w (componentDidUpdate opts w) =
               scrollReset opts w @
               [PushState (historyStateOnUpdate opts w) (pageTitle w) (get (nav w) ''url'')]"
      using ty nr by (simp add: componentDidUpdate_mutates(2) [of w, OF _ False])
    have h: "hist (componentDidUpdate opts w) =
               h_pushState (historyStateOnUpdate opts w) (pageTitle w) (get (nav w) ''url'') (hist w)"
      using ty nr by (simp add: componentDidUpdate_mutates(1) [of w, OF _ False])
    have m: "map_of (historyStateOnUpdate opts w) ''params'' = Some (navParams w)"
            "map_of (historyStateOnUpdate opts w) ''query'' = Some (navQuery w)"
      by (simp_all add: hs)
    have e1: "emitted w (componentDidUpdate opts w) =
              (if \<not> truthy (get (nav w) ''preserveScrollPosition'') \<and> enableScroll opts
               then [ScrollTo (JNum 0) (JNum 0)] else []) @
              [PushState
                 ([(''params'', navParams w), (''query'', navQuery w)] @
                  (if saveScrollInState opts
                   then [(''scroll'',
                          if truthy (get (nav w) ''preserveScrollPosition'')
                          then JObj [(''x'', windowScrollX w), (''y'', windowScrollY w)]
                          else JObj [(''x'', JNum 0), (''y'', JNum 0)])]
                   else []))
                 (pageTitle w) (get (nav w) ''url'')]"
      unfolding e hs [symmetric] by (simp add: scrollReset_def)
    have e2: "filter is_mutation (emitted w (componentDidUpdate opts w)) =
              [PushState (historyStateOnUpdate opts w) (pageTitle w) (get (nav w) ''url'')]"
      unfolding e by (simp add: scrollReset_def)
    have g: "getState (hist (componentDidUpdate opts w)) = Some (historyStateOnUpdate opts w)"
      and bl: "below (hist (componentDidUpdate opts w)) = current (hist w) # below (hist w)"
      and dp: "depth (hist (componentDidUpdate opts w)) = Suc (depth (hist w))"
      unfolding h by (simp_all add: h_pushState_def depth_def getState_def)
    show "emitted w (componentDidUpdate opts w) =
              (if \<not> truthy (get (nav w) ''preserveScrollPosition'') \<and> enableScroll opts
               then [ScrollTo (JNum 0) (JNum 0)] else []) @
              [PushState
                 ([(''params'', navParams w), (''query'', navQuery w)] @
                  (if saveScrollInState opts
                   then [(''scroll'',
                          if truthy (get (nav w) ''preserveScrollPosition'')
                          then JObj [(''x'', windowScrollX w), (''y'', windowScrollY w)]
                          else JObj [(''x'', JNum 0), (''y'', JNum 0)])]
                   else []))
                 (pageTitle w) (get (nav w) ''url'')]
            \<and> filter is_mutation (emitted w (componentDidUpdate opts w)) =
              [PushState (historyStateOnUpdate opts w) (pageTitle w) (get (nav w) ''url'')]
            \<and> map_of (historyStateOnUpdate opts w) ''params'' = Some (navParams w)
            \<and> map_of (historyStateOnUpdate opts w) ''query'' = Some (navQuery w)
            \<and> getState (hist (componentDidUpdate opts w)) = Some (historyStateOnUpdate opts w)
            \<and> below (hist (componentDidUpdate opts w)) = current (hist w) # below (hist w)
            \<and> depth (hist (componentDidUpdate opts w)) = Suc (depth (hist w))"
      by (intro conjI) (rule e1, rule e2, rule m(1), rule m(2), rule g, rule bl, rule dp)
  qed
  have same: "emitted (withType TYPE_CLICK w) (componentDidUpdate opts (withType TYPE_CLICK w))
                = emitted w (componentDidUpdate opts w)
              \<and> hist (componentDidUpdate opts (withType TYPE_CLICK w))
                = hist (componentDidUpdate opts w)"
  proof (cases "get (nav w) ''url'' = JStr (getUrl (hist w))")
    case True
    then have "componentDidUpdate opts w = w"
      using ty by (simp add: componentDidUpdate_same_url)
    moreover have "componentDidUpdate opts (withType TYPE_CLICK w) = withType TYPE_CLICK w"
      using True tyc urlc by (simp add: componentDidUpdate_same_url)
    ultimately show ?thesis by simp
  next
    case False
    have fc: "get (nav (withType TYPE_CLICK w)) ''url'' \<noteq> JStr (getUrl (hist (withType TYPE_CLICK w)))"
      using False urlc by simp
    show ?thesis
      using ty tyc nr urlc
      by (simp add: componentDidUpdate_mutates [of w, OF _ False]
          componentDidUpdate_mutates [of "withType TYPE_CLICK w", OF _ fc])
  qed
  have c7: "emitted (withType ''click'' w) (componentDidUpdate opts (withType ''click'' w))
                = emitted w (componentDidUpdate opts w)"
    and c8: "hist (componentDidUpdate opts (withType ''click'' w)) = hist (componentDidUpdate opts w)"
    using same by (simp_all add: TYPE_CLICK_def)
  have c9: "navType (withType ''click'' w) = JStr ''click''"
    using tyc by (simp add: TYPE_CLICK_def)
  have c10: "\<forall>k. k \<noteq> ''type'' \<longrightarrow> get (nav (withType ''click'' w)) k = get (nav w) k"
    by (simp add: get_nav_withType)
  show ?thesis
    by (intro conjI) (rule c1, rule c2, rule c3, rule c4, rule c5, rule c6, rule c7, rule c8,
        rule c9, rule c10)
qed

theorem missing_type_is_default_witness:
  "get (nav world_notype) ''type'' = JUndefined
   \<and> currentNavigate world_notype =
       JObj [(''url'', JStr ''/b''),
             (''params'', JObj [(''id'', JNum 7), (''pageTitle'', JStr ''B'')]),
             (''query'', JObj [(''q'', JStr ''x'')])]
   \<and> getUrl (hist world_notype) = ''/a''
   \<and> navParams world_notype = JObj [(''id'', JNum 7), (''pageTitle'', JStr ''B'')]
   \<and> navQuery world_notype = JObj [(''q'', JStr ''x'')]
   \<and> emitted world_notype (componentDidUpdate defaultOptions world_notype) =
       [ScrollTo (JNum 0) (JNum 0),
        PushState
          [(''params'', JObj [(''id'', JNum 7), (''pageTitle'', JStr ''B'')]),
           (''query'', JObj [(''q'', JStr ''x'')]),
           (''scroll'', JObj [(''x'', JNum 0), (''y'', JNum 0)])]
          (JStr ''B'') (JStr ''/b'')]
   \<and> emitted (withType ''click'' world_notype)
         (componentDidUpdate defaultOptions (withType ''click'' world_notype)) =
       [ScrollTo (JNum 0) (JNum 0),
        PushState
          [(''params'', JObj [(''id'', JNum 7), (''pageTitle'', JStr ''B'')]),
           (''query'', JObj [(''q'', JStr ''x'')]),
           (''scroll'', JObj [(''x'', JNum 0), (''y'', JNum 0)])]
          (JStr ''B'') (JStr ''/b'')]
   \<and> getState (hist (componentDidUpdate defaultOptions world_notype)) =
       Some [(''params'', JObj [(''id'', JNum 7), (''pageTitle'', JStr ''B'')]),
             (''query'', JObj [(''q'', JStr ''x'')]),
             (''scroll'', JObj [(''x'', JNum 0), (''y'', JNum 0)])]
   \<and> below (hist (componentDidUpdate defaultOptions world_notype)) = [page_a]
   \<and> depth (hist (componentDidUpdate defaultOptions world_notype)) = 2"
proof -
  have n: "get (nav world_notype) ''type'' = JUndefined"
    by code_simp
  note t = missing_type_is_default [OF n, of defaultOptions]
  have cn: "currentNavigate world_notype =
       JObj [(''url'', JStr ''/b''),
             (''params'', JObj [(''id'', JNum 7), (''pageTitle'', JStr ''B'')]),
             (''query'', JObj [(''q'', JStr ''x'')])]"
    by (simp add: world_notype_def)
  have u: "getUrl (hist world_notype) = ''/a''"
    by code_simp
  have np: "navParams world_notype = JObj [(''id'', JNum 7), (''pageTitle'', JStr ''B'')]"
    and nq: "navQuery world_notype = JObj [(''q'', JStr ''x'')]"
    using t by (simp_all add: cn)
  have e: "emitted world_notype (componentDidUpdate defaultOptions world_notype) =
       [ScrollTo (JNum 0) (JNum 0),
        PushState
          [(''params'', JObj [(''id'', JNum 7), (''pageTitle'', JStr ''B'')]),
           (''query'', JObj [(''q'', JStr ''x'')]),
           (''scroll'', JObj [(''x'', JNum 0), (''y'', JNum 0)])]
          (JStr ''B'') (JStr ''/b'')]"
    by code_simp
  have ec: "emitted (withType ''click'' world_notype)
         (componentDidUpdate defaultOptions (withType ''click'' world_notype)) =
       [ScrollTo (JNum 0) (JNum 0),
        PushState
          [(''params'', JObj [(''id'', JNum 7), (''pageTitle'', JStr ''B'')]),
           (''query'', JObj [(''q'', JStr ''x'')]),
           (''scroll'', JObj [(''x'', JNum 0), (''y'', JNum 0)])]
          (JStr ''B'') (JStr ''/b'')]"
    using t e by simp
  have g: "getState (hist (componentDidUpdate defaultOptions world_notype)) =
       Some [(''params'', JObj [(''id'', JNum 7), (''pageTitle'', JStr ''B'')]),
             (''query'', JObj [(''q'', JStr ''x'')]),
             (''scroll'', JObj [(''x'', JNum 0), (''y'', JNum 0)])]"
    and b: "below (hist (componentDidUpdate defaultOptions world_notype)) = [page_a]"
    and d: "depth (hist (componentDidUpdate defaultOptions world_notype)) = 2"
    by code_simp+
  show ?thesis
    by (intro conjI) (rule n, rule cn, rule u, rule np, rule nq, rule e, rule ec, rule g, rule b,
        rule d)
qed





subsection \<open>Scroll capture: \<^verbatim>\<open>_saveScrollPosition\<close>\<close>

lemma saveScrollPosition_cases:
  "saveScrollPosition w =
     (if scrollAlreadyStored w then w
      else replaceState (set_field ''scroll'' (windowScroll w) (stateOrEmpty (hist w)))
             JUndefined JUndefined w)"
  by (simp add: saveScrollPosition_def scrollAlreadyStored_def Let_def windowScroll_def)

lemma windowScroll_primitive:
  "strict_eq (windowScrollX w) (windowScrollX w)" "strict_eq (windowScrollY w) (windowScrollY w)"
  by (simp_all add: windowScrollX_def windowScrollY_def js_or_def num_def strict_eq_def
      split: option.splits)

lemma replaceState_frame [simp]:
  "windowScrollX (replaceState st t u w) = windowScrollX w"
  "windowScrollY (replaceState st t u w) = windowScrollY w"
  "stateOrEmpty (hist (replaceState st t u w)) = st"
  "getState (hist (replaceState st t u w)) = Some st"
  "below (hist (replaceState st t u w)) = below (hist w)"
  "trace (replaceState st t u w) = trace w @ [ReplaceState st t u]"
  by (simp_all add: replaceState_def log_def windowScrollX_def windowScrollY_def stateOrEmpty_def
      getState_def h_replaceState_def)

lemma saveScrollPosition_stored: "scrollAlreadyStored (saveScrollPosition w)"
proof (cases "scrollAlreadyStored w")
  case True
  then show ?thesis by (simp add: saveScrollPosition_cases)
next
  case False
  then show ?thesis
    using windowScroll_primitive [of w]
    by (simp add: saveScrollPosition_cases)
       (simp add: scrollAlreadyStored_def windowScroll_def)
qed

lemma saveScrollPosition_idem: "saveScrollPosition (saveScrollPosition w) = saveScrollPosition w"
  using saveScrollPosition_stored [of w] by (simp add: saveScrollPosition_cases [of "saveScrollPosition w"])

text \<open>
  Claim C7, as amended. The viewport's offset is \<^verbatim>\<open>window.scrollX || window.pageXOffset\<close>
  and \<^verbatim>\<open>window.scrollY || window.pageYOffset\<close>. When the \<^verbatim>\<open>scroll\<close> field of the current
  entry's state already holds that offset in both coordinates, the handler changes
  nothing. Otherwise it calls \<^verbatim>\<open>replaceState\<close> once, with the state returned by
  \<^verbatim>\<open>getState()\<close> (the empty object when that is null) in which the \<^verbatim>\<open>scroll\<close> field is
  the viewport's offset and every other field is as \<^verbatim>\<open>getState()\<close> returned it. It never
  calls \<^verbatim>\<open>pushState\<close>, and the entries below, the stack depth and the url stay as they
  were. A second call with the same offsets never writes: two calls make exactly one
  \<^verbatim>\<open>replaceState\<close> when the first call found the offset not yet stored, and none when it
  was stored already.
\<close>

theorem scroll_save_skips_or_replaces:
  "stateOrEmpty (hist w) = (case getState (hist w) of None \<Rightarrow> [] | Some fs \<Rightarrow> fs)
   \<and> windowScrollX w =
       (case scrollX w of
          None \<Rightarrow> (case pageXOffset w of None \<Rightarrow> JUndefined | Some m \<Rightarrow> JNum m)
        | Some n \<Rightarrow>
            if n \<noteq> 0 then JNum n
            else (case pageXOffset w of None \<Rightarrow> JUndefined | Some m \<Rightarrow> JNum m))
   \<and> windowScrollY w =
       (case scrollY w of
          None \<Rightarrow> (case pageYOffset w of None \<Rightarrow> JUndefined | Some m \<Rightarrow> JNum m)
        | Some n \<Rightarrow>
            if n \<noteq> 0 then JNum n
            else (case pageYOffset w of None \<Rightarrow> JUndefined | Some m \<Rightarrow> JNum m))
   \<and> scrollAlreadyStored w =
       (case map_of (stateOrEmpty (hist w)) ''scroll'' of
          None \<Rightarrow> False
        | Some s \<Rightarrow> truthy s \<and> strict_eq (get s ''x'') (windowScrollX w)
                    \<and> strict_eq (get s ''y'') (windowScrollY w))
   \<and> (\<forall>a b. strict_eq a b = (a = b \<and> a \<noteq> JNaN \<and> (\<forall>fs. a \<noteq> JObj fs)))
   \<and> (\<forall>fs sc. getState (hist w) = Some fs \<and> map_of fs ''scroll'' = Some (JObj sc)
         \<and> map_of sc ''x'' = Some (windowScrollX w) \<and> map_of sc ''y'' = Some (windowScrollY w)
         \<longrightarrow> scrollAlreadyStored w)
   \<and> (scrollAlreadyStored w \<longrightarrow> saveScrollPosition w = w)
   \<and> (\<not> scrollAlreadyStored w \<longrightarrow>
        emitted w (saveScrollPosition w) =
          [ReplaceState
             (AList.update ''scroll'' (JObj [(''x'', windowScrollX w), (''y'', windowScrollY w)])
                (stateOrEmpty (hist w)))
             JUndefined JUndefined]
        \<and> getState (hist (saveScrollPosition w)) =
            Some (AList.update ''scroll''
                    (JObj [(''x'', windowScrollX w), (''y'', windowScrollY w)])
                    (stateOrEmpty (hist w)))
        \<and> emitted w (saveScrollPosition (saveScrollPosition w)) =
          [ReplaceState
             (AList.update ''scroll'' (JObj [(''x'', windowScrollX w), (''y'', windowScrollY w)])
                (stateOrEmpty (hist w)))
             JUndefined JUndefined])
   \<and> (\<forall>k. map_of
              (AList.update ''scroll'' (JObj [(''x'', windowScrollX w), (''y'', windowScrollY w)])
                 (stateOrEmpty (hist w))) k
           = (if k = ''scroll''
              then Some (JObj [(''x'', windowScrollX w), (''y'', windowScrollY w)])
              else map_of (stateOrEmpty (hist w)) k))
   \<and> (\<forall>fs k. getState (hist w) = Some fs \<and> k \<noteq> ''scroll'' \<longrightarrow>
         map_of
           (AList.update ''scroll'' (JObj [(''x'', windowScrollX w), (''y'', windowScrollY w)])
              (stateOrEmpty (hist w))) k
         = map_of fs k)
   \<and> (getState (hist w) = None \<longrightarrow>
         AList.update ''scroll'' (JObj [(''x'', windowScrollX w), (''y'', windowScrollY w)])
           (stateOrEmpty (hist w))
         = [(''scroll'', JObj [(''x'', windowScrollX w), (''y'', windowScrollY w)])])
   \<and> saveScrollPosition (saveScrollPosition w) = saveScrollPosition w
   \<and> filter is_mutation (emitted w (saveScrollPosition (saveScrollPosition w)))
        = filter is_mutation (emitted w (saveScrollPosition w))
   \<and> (\<forall>st t u. PushState st t u \<notin> set (emitted w (saveScrollPosition w)))
   \<and> below (hist (saveScrollPosition w)) = below (hist w)
   \<and> depth (hist (saveScrollPosition w)) = depth (hist w)
   \<and> getUrl (hist (saveScrollPosition w)) = getUrl (hist w)"
proof -
  let ?v = "JObj [(''x'', windowScrollX w), (''y'', windowScrollY w)]"
  let ?st = "AList.update ''scroll'' ?v (stateOrEmpty (hist w))"
  have st: "set_field ''scroll'' (windowScroll w) (stateOrEmpty (hist w)) = ?st"
    by (simp add: set_field_def windowScroll_def)
  have e: "emitted w (saveScrollPosition w) =
            (if scrollAlreadyStored w then [] else [ReplaceState ?st JUndefined JUndefined])"
    by (simp add: saveScrollPosition_cases emitted_def st)
  have i: "saveScrollPosition (saveScrollPosition w) = saveScrollPosition w"
    by (rule saveScrollPosition_idem)
  have c1: "stateOrEmpty (hist w) = (case getState (hist w) of None \<Rightarrow> [] | Some fs \<Rightarrow> fs)"
    by (simp add: stateOrEmpty_def)
  have c2: "windowScrollX w =
       (case scrollX w of
          None \<Rightarrow> (case pageXOffset w of None \<Rightarrow> JUndefined | Some m \<Rightarrow> JNum m)
        | Some n \<Rightarrow>
            if n \<noteq> 0 then JNum n
            else (case pageXOffset w of None \<Rightarrow> JUndefined | Some m \<Rightarrow> JNum m))"
    by (simp add: windowScrollX_def js_or_def num_def split: option.splits)
  have c3: "windowScrollY w =
       (case scrollY w of
          None \<Rightarrow> (case pageYOffset w of None \<Rightarrow> JUndefined | Some m \<Rightarrow> JNum m)
        | Some n \<Rightarrow>
            if n \<noteq> 0 then JNum n
            else (case pageYOffset w of None \<Rightarrow> JUndefined | Some m \<Rightarrow> JNum m))"
    by (simp add: windowScrollY_def js_or_def num_def split: option.splits)
  have c4: "scrollAlreadyStored w =
       (case map_of (stateOrEmpty (hist w)) ''scroll'' of
          None \<Rightarrow> False
        | Some s \<Rightarrow> truthy s \<and> strict_eq (get s ''x'') (windowScrollX w)
                    \<and> strict_eq (get s ''y'') (windowScrollY w))"
    by (simp add: scrollAlreadyStored_def split: option.splits)
  have c4': "\<forall>a b. strict_eq a b = (a = b \<and> a \<noteq> JNaN \<and> (\<forall>fs. a \<noteq> JObj fs))"
  proof (intro allI)
    fix a b
    show "strict_eq a b = (a = b \<and> a \<noteq> JNaN \<and> (\<forall>fs. a \<noteq> JObj fs))"
      by (cases a) (simp_all add: strict_eq_def)
  qed
  have c5: "\<forall>fs sc. getState (hist w) = Some fs \<and> map_of fs ''scroll'' = Some (JObj sc)
         \<and> map_of sc ''x'' = Some (windowScrollX w) \<and> map_of sc ''y'' = Some (windowScrollY w)
         \<longrightarrow> scrollAlreadyStored w"
    using windowScroll_primitive [of w] by (auto simp add: c4 c1)
  have c6: "scrollAlreadyStored w \<longrightarrow> saveScrollPosition w = w"
    by (simp add: saveScrollPosition_cases)
  have c7: "\<not> scrollAlreadyStored w \<longrightarrow>
        emitted w (saveScrollPosition w) = [ReplaceState ?st JUndefined JUndefined]
        \<and> getState (hist (saveScrollPosition w)) = Some ?st
        \<and> emitted w (saveScrollPosition (saveScrollPosition w)) =
          [ReplaceState ?st JUndefined JUndefined]"
    unfolding i e by (simp add: saveScrollPosition_cases st)
  have c8: "\<forall>k. map_of ?st k = (if k = ''scroll'' then Some ?v else map_of (stateOrEmpty (hist w)) k)"
    by (simp add: update_conv')
  have c9: "\<forall>fs k. getState (hist w) = Some fs \<and> k \<noteq> ''scroll'' \<longrightarrow> map_of ?st k = map_of fs k"
    by (simp add: update_conv' c1)
  have c10: "getState (hist w) = None \<longrightarrow> ?st = [(''scroll'', ?v)]"
    by (simp add: c1)
  have c11: "filter is_mutation (emitted w (saveScrollPosition (saveScrollPosition w)))
        = filter is_mutation (emitted w (saveScrollPosition w))"
    by (simp add: i)
  have c12: "\<forall>st t u. PushState st t u \<notin> set (emitted w (saveScrollPosition w))"
    by (simp add: e)
  have c13: "below (hist (saveScrollPosition w)) = below (hist w)"
    by (simp add: saveScrollPosition_cases)
  have c14: "depth (hist (saveScrollPosition w)) = depth (hist w)"
    using c13 by (simp add: depth_def)
  have c15: "getUrl (hist (saveScrollPosition w)) = getUrl (hist w)"
    by (simp add: saveScrollPosition_cases replaceState_def log_def h_replaceState_def getUrl_def
        arg_url_def)
  show ?thesis
    by (intro conjI) (rule c1, rule c2, rule c3, rule c4, rule c4', rule c5, rule c6, rule c7,
        rule c8, rule c9, rule c10, rule i, rule c11, rule c12, rule c13, rule c14, rule c15)
qed

theorem scroll_save_skips_or_replaces_witness:
  "getState (hist world_scrolled) =
     Some [(''params'', JObj [(''id'', JNum 1)]), (''query'', JObj []),
           (''scroll'', JObj [(''x'', JNum 0), (''y'', JNum 5)])]
   \<and> windowScrollX world_scrolled = JNum 0 \<and> windowScrollY world_scrolled = JNum 120
   \<and> \<not> scrollAlreadyStored world_scrolled
   \<and> emitted world_scrolled (saveScrollPosition world_scrolled) =
       [ReplaceState
          [(''params'', JObj [(''id'', JNum 1)]), (''query'', JObj []),
           (''scroll'', JObj [(''x'', JNum 0), (''y'', JNum 120)])]
          JUndefined JUndefined]
   \<and> emitted world_scrolled (saveScrollPosition (saveScrollPosition world_scrolled)) =
       [ReplaceState
          [(''params'', JObj [(''id'', JNum 1)]), (''query'', JObj []),
           (''scroll'', JObj [(''x'', JNum 0), (''y'', JNum 120)])]
          JUndefined JUndefined]
   \<and> getState (hist (saveScrollPosition world_scrolled)) =
       Some [(''params'', JObj [(''id'', JNum 1)]), (''query'', JObj []),
             (''scroll'', JObj [(''x'', JNum 0), (''y'', JNum 120)])]
   \<and> below (hist (saveScrollPosition world_scrolled)) = [item_1]
   \<and> depth (hist (saveScrollPosition world_scrolled)) = 2
   \<and> getUrl (hist (saveScrollPosition world_scrolled)) = ''/a''
   \<and> getState (hist world_stateless) = None
   \<and> emitted world_stateless (saveScrollPosition world_stateless) =
       [ReplaceState [(''scroll'', JObj [(''x'', JNum 0), (''y'', JNum 120)])]
          JUndefined JUndefined]
   \<and> scrollAlreadyStored world_saved
   \<and> saveScrollPosition world_saved = world_saved"
proof -
  note t = scroll_save_skips_or_replaces [of world_scrolled]
  note tn = scroll_save_skips_or_replaces [of world_stateless]
  note ts = scroll_save_skips_or_replaces [of world_saved]
  have g: "getState (hist world_scrolled) =
     Some [(''params'', JObj [(''id'', JNum 1)]), (''query'', JObj []),
           (''scroll'', JObj [(''x'', JNum 0), (''y'', JNum 5)])]"
    and x: "windowScrollX world_scrolled = JNum 0"
    and y: "windowScrollY world_scrolled = JNum 120"
    and n: "\<not> scrollAlreadyStored world_scrolled"
    by code_simp+
  have e1: "emitted world_scrolled (saveScrollPosition world_scrolled) =
       [ReplaceState
          [(''params'', JObj [(''id'', JNum 1)]), (''query'', JObj []),
           (''scroll'', JObj [(''x'', JNum 0), (''y'', JNum 120)])]
          JUndefined JUndefined]"
    by code_simp
  have e2: "emitted world_scrolled (saveScrollPosition (saveScrollPosition world_scrolled)) =
       [ReplaceState
          [(''params'', JObj [(''id'', JNum 1)]), (''query'', JObj []),
           (''scroll'', JObj [(''x'', JNum 0), (''y'', JNum 120)])]
          JUndefined JUndefined]"
    using t n e1 by simp
  have g2: "getState (hist (saveScrollPosition world_scrolled)) =
       Some [(''params'', JObj [(''id'', JNum 1)]), (''query'', JObj []),
             (''scroll'', JObj [(''x'', JNum 0), (''y'', JNum 120)])]"
    by code_simp
  have b2: "below (hist (saveScrollPosition world_scrolled)) = [item_1]"
    and d2: "depth (hist (saveScrollPosition world_scrolled)) = 2"
    and u2: "getUrl (hist (saveScrollPosition world_scrolled)) = ''/a''"
    by code_simp+
  have gn: "getState (hist world_stateless) = None"
    by code_simp
  have en: "emitted world_stateless (saveScrollPosition world_stateless) =
       [ReplaceState [(''scroll'', JObj [(''x'', JNum 0), (''y'', JNum 120)])]
          JUndefined JUndefined]"
    by code_simp
  have ss: "scrollAlreadyStored world_saved"
    by code_simp
  have sk: "saveScrollPosition world_saved = world_saved"
    using ts ss by blast
  show ?thesis
    by (intro conjI) (rule g, rule x, rule y, rule n, rule e1, rule e2, rule g2, rule b2, rule d2,
        rule u2, rule gn, rule en, rule ss, rule sk)
qed

text \<open>
  Claim C7 as stated says that two calls with identical offsets make exactly one
  \<^verbatim>\<open>replaceState\<close>. When the state stores the offsets before the first call, they make
  none.
\<close>

theorem scroll_save_twice_counterexample:
  "emitted world_saved (saveScrollPosition (saveScrollPosition world_saved)) = []
   \<and> length (filter is_mutation
        (emitted world_saved (saveScrollPosition (saveScrollPosition world_saved)))) \<noteq> 1"
proof -
  have "scrollAlreadyStored world_saved"
    by (simp add: scrollAlreadyStored_def stateOrEmpty_def getState_def world_saved_def
        world0_def page_a_def windowScrollX_def windowScrollY_def js_or_def num_def strict_eq_def)
  then have "saveScrollPosition world_saved = world_saved"
    by (simp add: saveScrollPosition_cases)
  then show ?thesis by simp
qed

subsection \<open>The debounce timer: \<^verbatim>\<open>_onScroll\<close> and \<^verbatim>\<open>componentWillUnmount\<close>\<close>

lemma onScroll_fields:
  "trace (onScroll w) = trace w @ cancelled w @ [SetTimeout (Suc (timer_count w)) 150]"
  "scrollTimer (onScroll w) = Some (Suc (timer_count w))"
  "hist (onScroll w) = hist w"
  "clock (onScroll w) = clock w"
  "scrollX (onScroll w) = scrollX w"
  "pageXOffset (onScroll w) = pageXOffset w"
  "scrollY (onScroll w) = scrollY w"
  "pageYOffset (onScroll w) = pageYOffset w"
  by (simp_all add: onScroll_def setTimeout_def clearTimeout_def log_def cancelled_def Let_def
      windowScrollX_def windowScrollY_def split: option.splits)

lemma onScroll_timers:
  assumes "timerInvariant w"
  shows "timers (onScroll w) = [(Suc (timer_count w), clock w + 150)]"
  using assms
  by (auto simp add: onScroll_def setTimeout_def clearTimeout_def log_def timerInvariant_def
      Let_def split: option.splits list.splits)

lemma onScroll_invariant: "timerInvariant w \<Longrightarrow> timerInvariant (onScroll w)"
  by (simp add: timerInvariant_def [of "onScroll w"] onScroll_timers onScroll_fields)


lemma saveScrollPosition_frame [simp]:
  "timers (saveScrollPosition w) = timers w"
  "scrollTimer (saveScrollPosition w) = scrollTimer w"
  "clock (saveScrollPosition w) = clock w"
  by (simp_all add: saveScrollPosition_cases replaceState_def log_def)

lemma fire_frame [simp]:
  "timers (fire t w) = timers w"
  "scrollTimer (fire t w) = scrollTimer w"
  by (simp_all add: fire_def log_def)

lemma fold_fire_frame [simp]:
  "timers (fold fire ts w) = timers w"
  "scrollTimer (fold fire ts w) = scrollTimer w"
  by (induction ts arbitrary: w) simp_all

lemma elapse_timers:
  "timers (elapse d w) = filter (\<lambda>t. \<not> snd t \<le> clock w + d) (timers w)"
  "scrollTimer (elapse d w) = scrollTimer w"
  by (simp_all add: elapse_def Let_def)

lemma elapse_invariant: "timerInvariant w \<Longrightarrow> timerInvariant (elapse d w)"
  by (auto simp add: timerInvariant_def elapse_timers split: list.splits)

lemma onHistoryChange_timers [simp]:
  "timers (onHistoryChange opts e w) = timers w"
  "scrollTimer (onHistoryChange opts e w) = scrollTimer w"
proof -
  have a: "timers (afterConfirm w) = timers w" "scrollTimer (afterConfirm w) = scrollTimer w"
    by (simp_all add: afterConfirm_cases log_def split: option.splits hook.splits)
  show "timers (onHistoryChange opts e w) = timers w"
    by (cases "truthy (ignorePageLoadPopstate w) \<and> isPageloadPopstate e w")
       (simp_all add: onHistoryChange_live a pushState_def executeAction_def log_def,
        simp add: onHistoryChange_def)
  show "scrollTimer (onHistoryChange opts e w) = scrollTimer w"
    by (cases "truthy (ignorePageLoadPopstate w) \<and> isPageloadPopstate e w")
       (simp_all add: onHistoryChange_live a pushState_def executeAction_def log_def,
        simp add: onHistoryChange_def)
qed

lemma componentDidUpdate_timers [simp]:
  "timers (componentDidUpdate opts w) = timers w"
  "scrollTimer (componentDidUpdate opts w) = scrollTimer w"
  by (simp_all add: componentDidUpdate_def Let_def pushState_def replaceState_def scrollTo_def
      log_def split: prod.splits)

lemma timerInvariant_frame:
  "timers w' = timers w \<Longrightarrow> scrollTimer w' = scrollTimer w
   \<Longrightarrow> timerInvariant w \<Longrightarrow> timerInvariant w'"
  by (cases "timers w") (simp_all add: timerInvariant_def)

lemma deliver_invariant:
  assumes inv: "timerInvariant w"
  shows "timerInvariant (deliver opts n w)"
proof (cases n)
  case (Scroll x y)
  have "timerInvariant (w\<lparr>scrollX := Some x, pageXOffset := Some x,
                scrollY := Some y, pageYOffset := Some y\<rparr>)"
    by (rule timerInvariant_frame [OF _ _ inv]) simp_all
  then show ?thesis
    unfolding Scroll deliver.simps by (rule onScroll_invariant)
next
  case (Tick d)
  show ?thesis
    unfolding Tick deliver.simps using inv by (rule elapse_invariant)
next
  case (Popstate e)
  show ?thesis
    unfolding Popstate deliver.simps by (rule timerInvariant_frame [OF _ _ inv]) simp_all
next
  case (Update route descriptor)
  show ?thesis
    unfolding Update deliver.simps by (rule timerInvariant_frame [OF _ _ inv]) simp_all
qed

lemma run_invariant: "timerInvariant w \<Longrightarrow> timerInvariant (run opts ns w)"
  unfolding run_def by (induction ns arbitrary: w) (simp_all add: deliver_invariant)

lemma invariant_at_most_one: "timerInvariant w \<Longrightarrow> length (timers w) \<le> 1"
  by (simp add: timerInvariant_def split: list.splits)

lemma componentDidMount_invariant:
  assumes "timers w = []"
  shows "timerInvariant (componentDidMount opts w)"
proof -
  have "timers (componentDidMount opts w) = []"
    using assms
    by (simp add: componentDidMount_def Let_def replaceState_def executeAction_def log_def
        split: option.splits)
  then show ?thesis by (simp add: timerInvariant_def)
qed


lemma elapse_not_due:
  assumes "\<forall>t \<in> set (timers w). clock w + d < snd t"
  shows "elapse d w = w\<lparr>clock := clock w + d\<rparr>"
proof -
  have "filter (\<lambda>t. snd t \<le> clock w + d) (timers w) = []"
    using assms by (auto simp add: filter_empty_conv)
  moreover have "filter (\<lambda>t. \<not> snd t \<le> clock w + d) (timers w) = timers w"
    using assms by (auto simp add: filter_id_conv)
  ultimately show ?thesis
    by (simp add: elapse_def Let_def)
qed

lemma elapse_due_one:
  assumes "timers w = [(h, due)]" and "due \<le> clock w + d"
  shows "elapse d w = fire (h, due) (w\<lparr>clock := clock w + d, timers := []\<rparr>)"
  using assms by (simp add: elapse_def Let_def)

lemma run_Cons: "run opts (n # ns) w = run opts ns (deliver opts n w)"
  by (simp add: run_def)

lemma run_append: "run opts (ms @ ns) w = run opts ns (run opts ms w)"
  by (simp add: run_def)

lemma scroll_then_wait:
  assumes inv: "timerInvariant w" and gap: "gap < 150"
  shows "timerInvariant (deliver opts (Tick gap) (deliver opts (Scroll x y) w))"
    and "hist (deliver opts (Tick gap) (deliver opts (Scroll x y) w)) = hist w"
    and "trace (deliver opts (Tick gap) (deliver opts (Scroll x y) w)) =
           trace w @ cancelled w @ [SetTimeout (Suc (timer_count w)) 150]"
proof -
  let ?ws = "w\<lparr>scrollX := Some x, pageXOffset := Some x, scrollY := Some y, pageYOffset := Some y\<rparr>"
  have invs: "timerInvariant ?ws"
    by (rule timerInvariant_frame [OF _ _ inv]) simp_all
  have t: "timers (onScroll ?ws) = [(Suc (timer_count w), clock w + 150)]"
    using onScroll_timers [OF invs] by simp
  have nd: "\<forall>t \<in> set (timers (onScroll ?ws)). clock (onScroll ?ws) + gap < snd t"
    using gap by (simp add: t onScroll_fields)
  have e: "deliver opts (Tick gap) (deliver opts (Scroll x y) w)
            = (onScroll ?ws)\<lparr>clock := clock w + gap\<rparr>"
    using elapse_not_due [OF nd] by (simp add: onScroll_fields)
  have c: "cancelled ?ws = cancelled w"
    by (simp add: cancelled_def)
  show "timerInvariant (deliver opts (Tick gap) (deliver opts (Scroll x y) w))"
    unfolding e by (rule timerInvariant_frame [OF _ _ onScroll_invariant [OF invs]]) simp_all
  show "hist (deliver opts (Tick gap) (deliver opts (Scroll x y) w)) = hist w"
    unfolding e by (simp add: onScroll_fields)
  show "trace (deliver opts (Tick gap) (deliver opts (Scroll x y) w)) =
           trace w @ cancelled w @ [SetTimeout (Suc (timer_count w)) 150]"
    unfolding e by (simp add: onScroll_fields c)
qed

lemma cancelled_quiet [simp]:
  "filter is_fired (cancelled w) = []" "filter is_mutation (cancelled w) = []"
  by (simp_all add: cancelled_def split: option.splits)

lemma burst_quiet:
  assumes "timerInvariant w" and "\<forall>(x, y, gap) \<in> set b. gap < 150"
  shows "timerInvariant (run opts (burst b) w) \<and> hist (run opts (burst b) w) = hist w
       \<and> (\<exists>xs. trace (run opts (burst b) w) = trace w @ xs
                \<and> filter is_fired xs = [] \<and> filter is_mutation xs = [])"
  using assms
proof (induction b arbitrary: w)
  case Nil
  then show ?case by (simp add: run_def)
next
  case (Cons p b)
  obtain x y gap where p: "p = (x, y, gap)" by (cases p)
  let ?w1 = "deliver opts (Tick gap) (deliver opts (Scroll x y) w)"
  from Cons.prems(2) have gap: "gap < 150" and rest: "\<forall>(x, y, gap) \<in> set b. gap < 150"
    by (simp_all add: p)
  note step = scroll_then_wait [OF Cons.prems(1) gap, of opts x y]
  from Cons.IH [OF step(1) rest]
  obtain xs where "timerInvariant (run opts (burst b) ?w1)"
    and "hist (run opts (burst b) ?w1) = hist ?w1"
    and "trace (run opts (burst b) ?w1) = trace ?w1 @ xs"
    and "filter is_fired xs = []" and "filter is_mutation xs = []"
    by blast
  then show ?case
    by (simp add: p run_Cons step(2) step(3) del: deliver.simps)
qed


lemma windowScroll_after_scroll:
  "windowScroll (w\<lparr>scrollX := Some x, pageXOffset := Some x, scrollY := Some y, pageYOffset := Some y\<rparr>)
     = JObj [(''x'', JNum x), (''y'', JNum y)]"
  by (simp add: windowScroll_def windowScrollX_def windowScrollY_def js_or_def num_def)

lemma saveScrollPosition_trace:
  "trace (saveScrollPosition w) =
     trace w @
     (if scrollAlreadyStored w then []
      else [ReplaceState (set_field ''scroll'' (windowScroll w) (stateOrEmpty (hist w)))
              JUndefined JUndefined])"
  by (simp add: saveScrollPosition_cases)

lemma last_scroll_then_wait:
  assumes inv: "timerInvariant w"
  shows "\<exists>ys. trace (deliver opts (Tick d) (deliver opts (Scroll x y) w)) = trace w @ ys
          \<and> (filter is_mutation ys = []
               \<or> filter is_mutation ys =
                   [ReplaceState
                      (set_field ''scroll'' (JObj [(''x'', JNum x), (''y'', JNum y)])
                         (stateOrEmpty (hist w)))
                      JUndefined JUndefined])
          \<and> filter is_fired ys = (if 150 \<le> d then [TimerFired (Suc (timer_count w))] else [])"
proof (cases "d < 150")
  case True
  then show ?thesis
    by (simp add: scroll_then_wait(3) [OF inv True] del: deliver.simps)
next
  case False
  let ?ws = "w\<lparr>scrollX := Some x, pageXOffset := Some x, scrollY := Some y, pageYOffset := Some y\<rparr>"
  let ?h = "Suc (timer_count w)"
  let ?w4 = "log (TimerFired ?h) ((onScroll ?ws)\<lparr>clock := clock w + d, timers := []\<rparr>)"
  have invs: "timerInvariant ?ws"
    by (rule timerInvariant_frame [OF _ _ inv]) simp_all
  have t: "timers (onScroll ?ws) = [(?h, clock w + 150)]"
    using onScroll_timers [OF invs] by simp
  have due: "clock w + 150 \<le> clock (onScroll ?ws) + d"
    using False by (simp add: onScroll_fields)
  have e: "deliver opts (Tick d) (deliver opts (Scroll x y) w) = saveScrollPosition ?w4"
    using elapse_due_one [OF t due] by (simp add: fire_def onScroll_fields)
  have c: "cancelled ?ws = cancelled w"
    by (simp add: cancelled_def)
  have tr: "trace ?w4 = trace w @ cancelled w @ [SetTimeout ?h 150, TimerFired ?h]"
    by (simp add: onScroll_fields c)
  have h: "hist ?w4 = hist w"
    by (simp add: log_def onScroll_fields)
  have ws: "windowScroll ?w4 = JObj [(''x'', JNum x), (''y'', JNum y)]"
    by (simp add: windowScroll_def windowScrollX_def windowScrollY_def js_or_def num_def log_def
        onScroll_fields)
  let ?st = "set_field ''scroll'' (JObj [(''x'', JNum x), (''y'', JNum y)]) (stateOrEmpty (hist w))"
  let ?zs = "cancelled w @ [SetTimeout ?h 150, TimerFired ?h] @
             (if scrollAlreadyStored ?w4 then [] else [ReplaceState ?st JUndefined JUndefined])"
  have "trace (saveScrollPosition ?w4) = trace w @ ?zs"
    unfolding saveScrollPosition_trace tr h ws by simp
  moreover have "filter is_mutation ?zs = [] \<or> filter is_mutation ?zs = [ReplaceState ?st JUndefined JUndefined]"
    by simp
  moreover have "filter is_fired ?zs = (if 150 \<le> d then [TimerFired ?h] else [])"
    using False by simp
  ultimately show ?thesis
    unfolding e by blast
qed

lemma scrollAlreadyStored_frame:
  assumes "hist w' = hist w" "scrollX w' = scrollX w" "pageXOffset w' = pageXOffset w"
    "scrollY w' = scrollY w" "pageYOffset w' = pageYOffset w"
  shows "scrollAlreadyStored w' = scrollAlreadyStored w" "windowScroll w' = windowScroll w"
  using assms
  by (simp_all add: scrollAlreadyStored_def windowScroll_def windowScrollX_def windowScrollY_def)

text \<open>
  Claim C8. Let \<open>w\<close> be any world the component reaches after it was mounted with no
  timer pending, whatever the host delivered since. At most one timer is pending in
  \<open>w\<close>. A scroll notification in \<open>w\<close> calls \<^verbatim>\<open>clearTimeout\<close> on the pending timer, if
  there is one, and then \<^verbatim>\<open>setTimeout\<close> with delay 150, after which the new timer is the
  only one pending. A run of scroll notifications, each followed by the next one within
  less than 150 time units, and then a last notification with offsets \<open>(x, y)\<close> and any
  waiting time, runs the save callback at most once and makes at most one history
  mutation, a \<^verbatim>\<open>replaceState\<close> that stores the offsets \<open>(x, y)\<close> of the last notification.
\<close>

theorem scroll_debounce:
  assumes fresh: "timers w0 = []"
    and reach: "w = run opts ns (componentDidMount opts w0)"
    and gaps: "\<forall>(x, y, gap) \<in> set b. gap < 150"
  shows "length (timers w) \<le> 1
       \<and> emitted w (onScroll w) = cancelled w @ [SetTimeout (Suc (timer_count w)) 150]
       \<and> (\<forall>t \<in> set (timers w). cancelled w = [ClearTimeout (fst t)])
       \<and> timers (onScroll w) = [(Suc (timer_count w), clock w + 150)]
       \<and> (filter is_mutation (emitted w (run opts (burst b @ [Scroll x y, Tick d]) w)) = []
           \<or> filter is_mutation (emitted w (run opts (burst b @ [Scroll x y, Tick d]) w)) =
               [ReplaceState
                  (set_field ''scroll'' (JObj [(''x'', JNum x), (''y'', JNum y)])
                     (stateOrEmpty (hist w)))
                  JUndefined JUndefined])
       \<and> length (filter is_fired (emitted w (run opts (burst b @ [Scroll x y, Tick d]) w))) \<le> 1"
proof -
  have inv: "timerInvariant w"
    unfolding reach by (rule run_invariant [OF componentDidMount_invariant [OF fresh]])
  have one: "length (timers w) \<le> 1"
    using inv by (rule invariant_at_most_one)
  have em: "emitted w (onScroll w) = cancelled w @ [SetTimeout (Suc (timer_count w)) 150]"
    by (rule emitted_append) (simp add: onScroll_fields)
  have cl: "\<forall>t \<in> set (timers w). cancelled w = [ClearTimeout (fst t)]"
    using inv by (auto simp add: timerInvariant_def cancelled_def split: list.splits)
  let ?w2 = "run opts (burst b) w"
  from burst_quiet [OF inv gaps, of opts]
  obtain xs where inv2: "timerInvariant ?w2" and h2: "hist ?w2 = hist w"
    and t2: "trace ?w2 = trace w @ xs"
    and q: "filter is_fired xs = []" "filter is_mutation xs = []"
    by blast
  from last_scroll_then_wait [OF inv2, of opts d x y]
  obtain ys where t3: "trace (deliver opts (Tick d) (deliver opts (Scroll x y) ?w2)) = trace ?w2 @ ys"
    and m: "filter is_mutation ys = []
               \<or> filter is_mutation ys =
                   [ReplaceState
                      (set_field ''scroll'' (JObj [(''x'', JNum x), (''y'', JNum y)])
                         (stateOrEmpty (hist ?w2)))
                      JUndefined JUndefined]"
    and f: "filter is_fired ys = (if 150 \<le> d then [TimerFired (Suc (timer_count ?w2))] else [])"
    by blast
  have r: "run opts (burst b @ [Scroll x y, Tick d]) w
            = deliver opts (Tick d) (deliver opts (Scroll x y) ?w2)"
    by (simp add: run_append) (simp add: run_def)
  have e: "emitted w (run opts (burst b @ [Scroll x y, Tick d]) w) = xs @ ys"
    unfolding r by (rule emitted_append) (simp add: t3 t2 del: deliver.simps)
  show ?thesis
    unfolding e using one em cl onScroll_timers [OF inv] m q f
    by (simp add: h2 stateOrEmpty_def getState_def)
qed

theorem scroll_debounce_witness:
  "timers world0 = [] \<and> (50 :: nat) < 150 \<and> (100 :: nat) < 150
   \<and> length (timers (componentDidMount defaultOptions world0)) \<le> 1
   \<and> timers (onScroll (componentDidMount defaultOptions world0)) = [(1, 150)]
   \<and> filter is_mutation
        (emitted (componentDidMount defaultOptions world0)
           (run defaultOptions (burst [(0, 10, 50), (0, 20, 100)] @ [Scroll 0 30, Tick 150])
              (componentDidMount defaultOptions world0)))
       = [ReplaceState [(''scroll'', JObj [(''x'', JNum 0), (''y'', JNum 30)])]
            JUndefined JUndefined]"
proof -
  have a: "timers world0 = []"
    by (simp add: world0_def)
  have r: "componentDidMount defaultOptions world0
            = run defaultOptions [] (componentDidMount defaultOptions world0)"
    by (simp add: run_def)
  have g: "\<forall>(x, y, gap) \<in> set [(0, 10, 50), (0, 20, 100 :: nat)]. gap < 150"
    by simp
  have c: "timer_count (componentDidMount defaultOptions world0) = 0"
          "clock (componentDidMount defaultOptions world0) = 0"
    by code_simp+
  have ev: "filter is_mutation
        (emitted (componentDidMount defaultOptions world0)
           (run defaultOptions (burst [(0, 10, 50), (0, 20, 100)] @ [Scroll 0 30, Tick 150])
              (componentDidMount defaultOptions world0)))
       = [ReplaceState [(''scroll'', JObj [(''x'', JNum 0), (''y'', JNum 30)])]
            JUndefined JUndefined]"
    by code_simp
  show ?thesis
    using scroll_debounce [OF a r g, of 0 30 150] a ev
    by (simp add: c)
qed

text \<open>
  Claim C9. \<^verbatim>\<open>componentWillUnmount\<close> calls \<^verbatim>\<open>this._history.off\<close> and, when
  \<^verbatim>\<open>saveScrollInState\<close> is on, removes the scroll listener; it calls no \<^verbatim>\<open>clearTimeout\<close>
  and leaves the pending timers as they are. A timer pending at unmount therefore still
  fires when its time comes, runs \<^verbatim>\<open>_saveScrollPosition\<close> and, unless the offsets are
  already stored, calls \<^verbatim>\<open>replaceState\<close> after the teardown.
\<close>

theorem unmount_keeps_timer:
  "emitted w (componentWillUnmount opts w) =
     HistoryOff # (if saveScrollInState opts then [RemoveScrollListener] else [])
   \<and> timers (componentWillUnmount opts w) = timers w
   \<and> (timers w = [(h, due)] \<and> due \<le> clock w + d \<longrightarrow>
        filter is_fired
          (emitted (componentWillUnmount opts w) (elapse d (componentWillUnmount opts w)))
          = [TimerFired h]
        \<and> filter is_mutation
          (emitted (componentWillUnmount opts w) (elapse d (componentWillUnmount opts w)))
          = (if scrollAlreadyStored w then []
             else [ReplaceState (set_field ''scroll'' (windowScroll w) (stateOrEmpty (hist w)))
                     JUndefined JUndefined]))"
proof -
  let ?u = "componentWillUnmount opts w"
  have f: "timers ?u = timers w" "clock ?u = clock w" "hist ?u = hist w"
    "scrollX ?u = scrollX w" "pageXOffset ?u = pageXOffset w"
    "scrollY ?u = scrollY w" "pageYOffset ?u = pageYOffset w"
    by (simp_all add: componentWillUnmount_def Let_def log_def)
  have e: "emitted w ?u = HistoryOff # (if saveScrollInState opts then [RemoveScrollListener] else [])"
    by (rule emitted_append) (simp add: componentWillUnmount_def Let_def)
  have late: "filter is_fired (emitted ?u (elapse d ?u)) = [TimerFired h]
        \<and> filter is_mutation (emitted ?u (elapse d ?u))
          = (if scrollAlreadyStored w then []
             else [ReplaceState (set_field ''scroll'' (windowScroll w) (stateOrEmpty (hist w)))
                     JUndefined JUndefined])"
    if t: "timers w = [(h, due)]" and due: "due \<le> clock w + d"
  proof -
    let ?v = "log (TimerFired h) (?u\<lparr>clock := clock ?u + d, timers := []\<rparr>)"
    have el: "elapse d ?u = saveScrollPosition ?v"
      using elapse_due_one [of ?u h due d] t due by (simp add: f fire_def)
    have fr: "scrollAlreadyStored ?v = scrollAlreadyStored w" "windowScroll ?v = windowScroll w"
      by (rule scrollAlreadyStored_frame; simp add: log_def f)+
    have hv: "hist ?v = hist w"
      by (simp add: log_def f)
    have "emitted ?u (elapse d ?u) =
            TimerFired h #
            (if scrollAlreadyStored w then []
             else [ReplaceState (set_field ''scroll'' (windowScroll w) (stateOrEmpty (hist w)))
                     JUndefined JUndefined])"
      unfolding el by (rule emitted_append) (simp add: saveScrollPosition_trace fr hv)
    then show ?thesis by simp
  qed
  show ?thesis
    using e f(1) late by blast
qed

theorem unmount_keeps_timer_witness:
  "timers world_armed = [(1, 150)] \<and> 150 \<le> clock world_armed + 150
   \<and> emitted world_armed (componentWillUnmount defaultOptions world_armed)
       = [HistoryOff, RemoveScrollListener]
   \<and> timers (componentWillUnmount defaultOptions world_armed) = [(1, 150)]
   \<and> filter is_fired
        (emitted (componentWillUnmount defaultOptions world_armed)
           (elapse 150 (componentWillUnmount defaultOptions world_armed)))
       = [TimerFired 1]
   \<and> filter is_mutation
        (emitted (componentWillUnmount defaultOptions world_armed)
           (elapse 150 (componentWillUnmount defaultOptions world_armed)))
       = [ReplaceState [(''scroll'', JObj [(''x'', JNum 0), (''y'', JNum 30)])]
            JUndefined JUndefined]"
proof -
  have t: "timers world_armed = [(1, 150)]" and c: "clock world_armed = 0"
    by code_simp+
  have s: "\<not> scrollAlreadyStored world_armed"
    by code_simp
  have st: "set_field ''scroll'' (windowScroll world_armed) (stateOrEmpty (hist world_armed))
             = [(''scroll'', JObj [(''x'', JNum 0), (''y'', JNum 30)])]"
    by code_simp
  have o: "saveScrollInState defaultOptions"
    by (simp add: defaultOptions_def)
  show ?thesis
    using unmount_keeps_timer [of world_armed defaultOptions 1 150 150] t s o
    by (simp add: c st)
qed

end
